theory Spec2Isabelle
  imports Main
begin

section \<open>The cached sandbox slot of cached-sandbox.ts\<close>

text \<open>
  The class \<^verbatim>\<open>CachedSandbox\<close> owns one directory, a lifecycle state, a count of
  active borrowers and a last-used timestamp. Its three asynchronous methods
  (\<^verbatim>\<open>init\<close>, \<^verbatim>\<open>prepare\<close>, \<^verbatim>\<open>decrementActiveSandboxCount\<close>) run their bodies
  under one \<^verbatim>\<open>Mutex\<close>, so each body is one atomic step on the slot: a function from
  the slot and the world to a result, the slot and the world afterwards.
  \<^verbatim>\<open>logger.debug\<close> only observes and is left out.
\<close>

subsection \<open>Data\<close>

datatype CachedSandboxState = CREATED | INITIALIZED | READY

text \<open>A \<^verbatim>\<open>dayjs.Dayjs\<close> value, as a point on a discrete time line.\<close>

type_synonym timestamp = nat

text \<open>
  \<^verbatim>\<open>PiecePackage\<close> and \<^verbatim>\<open>SourceCode\<close> come from another package; the slot only
  passes them on, so they are opaque payloads here.
\<close>

type_synonym PiecePackage = string

type_synonym SourceCode = string

record CodeArtifact =
  name :: string
  sourceCode :: SourceCode

text \<open>\<^verbatim>\<open>codeSteps?: CodeArtifact[]\<close>: the property may be absent.\<close>

record PrepareParams =
  pieces :: "PiecePackage list"
  codeSteps :: "CodeArtifact list option"

text \<open>
  The private fields \<^verbatim>\<open>_state\<close>, \<^verbatim>\<open>_activeSandboxCount\<close>, \<^verbatim>\<open>_lastUsedAt\<close> carry the
  prefix \<open>p_\<close>. The count is a JavaScript number that the code only ever changes by
  one; it is an unbounded integer here, so that staying non-negative is a property of
  the code and not of the type.
\<close>

record CachedSandbox =
  key :: string
  p_state :: CachedSandboxState
  p_activeSandboxCount :: int
  p_lastUsedAt :: timestamp

text \<open>The object literal \<^verbatim>\<open>contextValue\<close> built in the catch block of \<^verbatim>\<open>prepare\<close>.\<close>

record contextValue =
  ctx_pieces :: "PiecePackage list"
  ctx_codeSteps :: "CodeArtifact list"
  ctx_state :: CachedSandboxState
  ctx_activeSandboxes :: int
  ctx_key :: string
  ctx_lastUsedAt :: timestamp
  ctx_isInUse :: bool
  ctx_path :: string

text \<open>
  A thrown value: the error's kind (its class name), its message, and the diagnostic
  context attached to it so far.
\<close>

record error =
  kind :: string
  message :: string
  errContext :: "(string \<times> contextValue) list"

subsection \<open>The world: collaborator calls and their promises\<close>

text \<open>
  Every call of an external collaborator is recorded, oldest first, with the state of
  its promise at the moment the operation that made the call returned.
\<close>

datatype call =
    Rm string
  | Mkdir string
  | PackageManagerInit string
  | PieceManagerInstall string "PiecePackage list"
  | EngineInstall string
  | ProcessCodeStep string SourceCode string

datatype status = Fulfilled | Rejected error | Pending

type_synonym world = "(call \<times> status) list"

text \<open>
  A launched build task: the time it takes to settle, counted from its launch, and how
  it settles (\<open>None\<close> fulfils, \<open>Some e\<close> rejects with \<open>e\<close>).
\<close>

datatype task = Task (settlesAfter: nat) (outcome: "error option")

text \<open>
  What the imports of the file do. Each collaborator answers from the history of the
  world, so the same call may fail once and succeed on a retry. \<open>CACHE_PATH\<close> is the
  static field read from the system configuration; \<open>stateName\<close> is how the enum of
  \<^verbatim>\<open>cached-sandbox-state.ts\<close> prints in a template literal; \<open>enrichErrorContext\<close> is
  the helper of \<^verbatim>\<open>exception-handler\<close>.
\<close>

record env =
  CACHE_PATH :: string
  stateName :: "CachedSandboxState \<Rightarrow> string"
  rm :: "world \<Rightarrow> string \<Rightarrow> error option"
  mkdir :: "world \<Rightarrow> string \<Rightarrow> error option"
  packageManager_init :: "world \<Rightarrow> string \<Rightarrow> error option"
  pieceManager_install :: "world \<Rightarrow> string \<Rightarrow> PiecePackage list \<Rightarrow> error option"
  engineInstaller_install :: "world \<Rightarrow> string \<Rightarrow> error option"
  codeBuilder_processCodeStep :: "world \<Rightarrow> string \<Rightarrow> SourceCode \<Rightarrow> string \<Rightarrow> task"
  enrichErrorContext :: "error \<Rightarrow> string \<Rightarrow> contextValue \<Rightarrow> error"

text \<open>\<^verbatim>\<open>await f(...)\<close>: the call is recorded with the settled state of its promise.\<close>

definition awaitCall :: "call \<Rightarrow> error option \<Rightarrow> world \<Rightarrow> (error + unit) \<times> world" where
  "awaitCall c r w =
     (case r of
        None \<Rightarrow> (Inr (), w @ [(c, Fulfilled)])
      | Some e \<Rightarrow> (Inl e, w @ [(c, Rejected e)]))"

text \<open>
  \<^verbatim>\<open>Promise.all\<close> over tasks launched together: it fulfils once every task has
  fulfilled (\<open>None\<close>), and rejects as soon as one task rejects, with that task's reason
  (\<open>Some (d, e)\<close>: at time \<open>d\<close> after the launch, with \<open>e\<close>). Of two tasks rejecting at the
  same time the one launched first wins.
\<close>

fun promise_all :: "task list \<Rightarrow> (nat \<times> error) option" where
  "promise_all [] = None"
| "promise_all (t # ts) =
     (case outcome t of
        None \<Rightarrow> promise_all ts
      | Some e \<Rightarrow>
          (case promise_all ts of
             None \<Rightarrow> Some (settlesAfter t, e)
           | Some (d, e') \<Rightarrow>
               if settlesAfter t \<le> d then Some (settlesAfter t, e) else Some (d, e')))"

text \<open>The state of a task's promise at time \<open>d\<close> after its launch.\<close>

definition statusAt :: "nat \<Rightarrow> task \<Rightarrow> status" where
  "statusAt d t =
     (if settlesAfter t \<le> d
      then (case outcome t of None \<Rightarrow> Fulfilled | Some e \<Rightarrow> Rejected e)
      else Pending)"

subsection \<open>The class\<close>

text \<open>The constructor, with the field initialisers; \<open>now\<close> is what \<^verbatim>\<open>dayjs()\<close> returns.\<close>

definition new_CachedSandbox :: "timestamp \<Rightarrow> string \<Rightarrow> CachedSandbox" where
  "new_CachedSandbox now k =
     \<lparr>key = k, p_state = CREATED, p_activeSandboxCount = 0, p_lastUsedAt = now\<rparr>"

definition path :: "env \<Rightarrow> CachedSandbox \<Rightarrow> string" where
  "path env s = CACHE_PATH env @ ''/sandbox/'' @ key s"

definition lastUsedAt :: "CachedSandbox \<Rightarrow> timestamp" where
  "lastUsedAt s = p_lastUsedAt s"

definition isInUse :: "CachedSandbox \<Rightarrow> bool" where
  "isInUse s = (p_activeSandboxCount s > 0)"

definition deletePathIfExists :: "env \<Rightarrow> CachedSandbox \<Rightarrow> world \<Rightarrow> (error + unit) \<times> world" where
  "deletePathIfExists env s w = awaitCall (Rm (path env s)) (rm env w (path env s)) w"

text \<open>
  \<^verbatim>\<open>init\<close>: the body has no try/catch, so an error of \<^verbatim>\<open>rm\<close> or \<^verbatim>\<open>mkdir\<close> leaves
  the method as it is.
\<close>

definition init :: "env \<Rightarrow> CachedSandbox \<Rightarrow> world \<Rightarrow> (error + unit) \<times> CachedSandbox \<times> world" where
  "init env s w =
     (if p_state s \<noteq> CREATED then (Inr (), s, w)
      else
        (case deletePathIfExists env s w of
           (Inl e, w1) \<Rightarrow> (Inl e, s, w1)
         | (Inr u, w1) \<Rightarrow>
             (case awaitCall (Mkdir (path env s)) (mkdir env w1 (path env s)) w1 of
                (Inl e, w2) \<Rightarrow> (Inl e, s, w2)
              | (Inr u', w2) \<Rightarrow> (Inr (), s\<lparr>p_state := INITIALIZED\<rparr>, w2))))"

text \<open>
  \<^verbatim>\<open>codeArchives.map(...)\<close>: one \<^verbatim>\<open>processCodeStep\<close> call per archive, in order, each
  pending while the next is launched.
\<close>

fun launch :: "env \<Rightarrow> string \<Rightarrow> CodeArtifact list \<Rightarrow> world \<Rightarrow> (call \<times> task) list" where
  "launch env p [] w = []"
| "launch env p (archive # archives) w =
     (let c = ProcessCodeStep (name archive) (sourceCode archive) p
      in (c, codeBuilder_processCodeStep env w (name archive) (sourceCode archive) p)
           # launch env p archives (w @ [(c, Pending)]))"

definition buildCodeArchives :: "env \<Rightarrow> CachedSandbox \<Rightarrow> CodeArtifact list \<Rightarrow> world \<Rightarrow> (error + unit) \<times> world" where
  "buildCodeArchives env s codeArchives w =
     (let buildJobs = launch env (path env s) codeArchives w
      in case promise_all (map snd buildJobs) of
           None \<Rightarrow> (Inr (), w @ map (\<lambda>(c, t). (c, Fulfilled)) buildJobs)
         | Some (d, e) \<Rightarrow> (Inl e, w @ map (\<lambda>(c, t). (c, statusAt d t)) buildJobs))"

text \<open>Lines 87 to 98: the four awaited steps of the first \<^verbatim>\<open>prepare\<close>.\<close>

definition buildSequence :: "env \<Rightarrow> CachedSandbox \<Rightarrow> PiecePackage list \<Rightarrow> CodeArtifact list \<Rightarrow> world \<Rightarrow> (error + unit) \<times> world" where
  "buildSequence env s ps cs w =
     (case awaitCall (PackageManagerInit (path env s)) (packageManager_init env w (path env s)) w of
        (Inl e, w1) \<Rightarrow> (Inl e, w1)
      | (Inr u1, w1) \<Rightarrow>
     (case awaitCall (PieceManagerInstall (path env s) ps) (pieceManager_install env w1 (path env s) ps) w1 of
        (Inl e, w2) \<Rightarrow> (Inl e, w2)
      | (Inr u2, w2) \<Rightarrow>
     (case awaitCall (EngineInstall (path env s)) (engineInstaller_install env w2 (path env s)) w2 of
        (Inl e, w3) \<Rightarrow> (Inl e, w3)
      | (Inr u3, w3) \<Rightarrow> buildCodeArchives env s cs w3)))"

text \<open>Line 76: the value thrown when \<^verbatim>\<open>prepare\<close> finds the slot not initialised.\<close>

definition notInitializedError :: "env \<Rightarrow> CachedSandbox \<Rightarrow> error" where
  "notInitializedError env s =
     \<lparr>kind = ''Error'',
      message = ''[CachedSandbox#prepare] not initialized, Key='' @ key s
                  @ '' state='' @ stateName env (p_state s),
      errContext = []\<rparr>"

text \<open>The callback given to \<^verbatim>\<open>lock.runExclusive\<close> in \<^verbatim>\<open>prepare\<close>.\<close>

definition prepareExclusive :: "env \<Rightarrow> timestamp \<Rightarrow> PiecePackage list \<Rightarrow> CodeArtifact list \<Rightarrow> CachedSandbox \<Rightarrow> world \<Rightarrow> (error + unit) \<times> CachedSandbox \<times> world" where
  "prepareExclusive env now ps cs s w =
     (if p_state s = CREATED
      then (Inl (notInitializedError env s), s, w)
      else
        (let s1 = s\<lparr>p_activeSandboxCount := p_activeSandboxCount s + 1, p_lastUsedAt := now\<rparr>
         in if p_state s1 \<noteq> INITIALIZED then (Inr (), s1, w)
            else
              (case buildSequence env s1 ps cs w of
                 (Inl e, w') \<Rightarrow> (Inl e, s1, w')
               | (Inr u, w') \<Rightarrow> (Inr (), s1\<lparr>p_state := READY\<rparr>, w'))))"

text \<open>The context value of the catch block, read from the slot as the body left it.\<close>

definition contextOf :: "env \<Rightarrow> PiecePackage list \<Rightarrow> CodeArtifact list \<Rightarrow> CachedSandbox \<Rightarrow> contextValue" where
  "contextOf env ps cs s =
     \<lparr>ctx_pieces = ps, ctx_codeSteps = cs, ctx_state = p_state s,
      ctx_activeSandboxes = p_activeSandboxCount s, ctx_key = key s,
      ctx_lastUsedAt = lastUsedAt s, ctx_isInUse = isInUse s, ctx_path = path env s\<rparr>"

text \<open>
  \<^verbatim>\<open>prepare({ pieces, codeSteps = [] })\<close>; \<open>now\<close> is what \<^verbatim>\<open>dayjs()\<close> returns when the
  body reads it. The default of \<^verbatim>\<open>codeSteps\<close> is resolved once, at the parameter, so
  the catch block sees the resolved list as well. The catch block runs after the lock
  is released; it reads the slot as the body left it, which is what the code reads
  when no other caller is queued on the lock.
\<close>

definition prepare :: "env \<Rightarrow> timestamp \<Rightarrow> PrepareParams \<Rightarrow> CachedSandbox \<Rightarrow> world \<Rightarrow> (error + unit) \<times> CachedSandbox \<times> world" where
  "prepare env now params s w =
     (let ps = pieces params;
          cs = (case codeSteps params of None \<Rightarrow> [] | Some given \<Rightarrow> given)
      in case prepareExclusive env now ps cs s w of
           (Inr u, s', w') \<Rightarrow> (Inr (), s', w')
         | (Inl e, s', w') \<Rightarrow>
             (Inl (enrichErrorContext env e ''[CachedSandbox#prepare]'' (contextOf env ps cs s')),
              s', w'))"

definition decrementActiveSandboxCount :: "CachedSandbox \<Rightarrow> CachedSandbox" where
  "decrementActiveSandboxCount s =
     (if p_activeSandboxCount s = 0 then s
      else s\<lparr>p_activeSandboxCount := p_activeSandboxCount s - 1\<rparr>)"

subsection \<open>Sequences of calls on one slot\<close>

text \<open>
  The lock serialises the bodies, so a life of the slot is a sequence of operations;
  a caller that gets an error goes on with the slot as the failed call left it.
\<close>

datatype op = Init | Prepare timestamp PrepareParams | Release

fun step :: "env \<Rightarrow> op \<Rightarrow> CachedSandbox \<times> world \<Rightarrow> CachedSandbox \<times> world" where
  "step env Init (s, w) = snd (init env s w)"
| "step env (Prepare now params) (s, w) = snd (prepare env now params s w)"
| "step env Release (s, w) = (decrementActiveSandboxCount s, w)"

definition run :: "env \<Rightarrow> op list \<Rightarrow> CachedSandbox \<times> world \<Rightarrow> CachedSandbox \<times> world" where
  "run env ops sw = fold (step env) ops sw"

subsection \<open>The specification's side\<close>

text \<open>
  The build sequence as the specification lists it: dependency context, package
  install, runtime install, then one build per code artifact.
\<close>

definition fullSequence :: "string \<Rightarrow> PiecePackage list \<Rightarrow> CodeArtifact list \<Rightarrow> call list" where
  "fullSequence p ps cs =
     [PackageManagerInit p, PieceManagerInstall p ps, EngineInstall p]
       @ map (\<lambda>a. ProcessCodeStep (name a) (sourceCode a) p) cs"

text \<open>
  The three installs all succeed from the world \<open>w\<close>, each asked in the world the
  previous one left; and the world they leave.
\<close>

definition installed :: "string \<Rightarrow> PiecePackage list \<Rightarrow> world \<Rightarrow> world" where
  "installed p ps w =
     w @ [(PackageManagerInit p, Fulfilled), (PieceManagerInstall p ps, Fulfilled),
          (EngineInstall p, Fulfilled)]"

definition installsSucceed :: "env \<Rightarrow> string \<Rightarrow> PiecePackage list \<Rightarrow> world \<Rightarrow> bool" where
  "installsSucceed env p ps w =
     (packageManager_init env w p = None
      \<and> pieceManager_install env (w @ [(PackageManagerInit p, Fulfilled)]) p ps = None
      \<and> engineInstaller_install env
            (w @ [(PackageManagerInit p, Fulfilled), (PieceManagerInstall p ps, Fulfilled)]) p = None)"

text \<open>
  The timestamps of the \<^verbatim>\<open>prepare\<close> calls of a run that found the slot initialised
  (state other than \<open>CREATED\<close>), oldest first.
\<close>

fun passedPrepares :: "env \<Rightarrow> op list \<Rightarrow> CachedSandbox \<times> world \<Rightarrow> timestamp list" where
  "passedPrepares env [] sw = []"
| "passedPrepares env (Init # ops) sw = passedPrepares env ops (step env Init sw)"
| "passedPrepares env (Release # ops) sw = passedPrepares env ops (step env Release sw)"
| "passedPrepares env (Prepare now params # ops) sw =
     (if p_state (fst sw) = CREATED then [] else [now])
       @ passedPrepares env ops (step env (Prepare now params) sw)"

fun isBuildCall :: "call \<Rightarrow> bool" where
  "isBuildCall (ProcessCodeStep n src p) = True"
| "isBuildCall c = False"

text \<open>The calls whose promise was still pending when the operation returned.\<close>

definition unawaited :: "world \<Rightarrow> call list" where
  "unawaited w = map fst (filter (\<lambda>(c, st). st = Pending) w)"

text \<open>
  Modelled from the spec: \<^verbatim>\<open>enrichErrorContext\<close> of \<^verbatim>\<open>exception-handler\<close> is not among
  the sources. The specification describes it as attaching structured context to a
  failure without changing its kind.
\<close>

definition enrichErrorContext_spec :: "error \<Rightarrow> string \<Rightarrow> contextValue \<Rightarrow> error" where
  "enrichErrorContext_spec e k v = e\<lparr>errContext := errContext e @ [(k, v)]\<rparr>"

subsection \<open>Concrete collaborators\<close>

text \<open>Collaborators that always succeed; every build settles after one tick.\<close>

definition env_ok :: env where
  "env_ok =
     \<lparr>CACHE_PATH = ''/tmp/cache'',
      stateName = (\<lambda>st. case st of CREATED \<Rightarrow> ''CREATED'' | INITIALIZED \<Rightarrow> ''INITIALIZED'' | READY \<Rightarrow> ''READY''),
      rm = (\<lambda>w p. None),
      mkdir = (\<lambda>w p. None),
      packageManager_init = (\<lambda>w p. None),
      pieceManager_install = (\<lambda>w p ps. None),
      engineInstaller_install = (\<lambda>w p. None),
      codeBuilder_processCodeStep = (\<lambda>w n src p. Task 1 None),
      enrichErrorContext = enrichErrorContext_spec\<rparr>"

definition storageError :: error where
  "storageError = \<lparr>kind = ''StorageError'', message = ''EACCES'', errContext = []\<rparr>"

definition buildError :: error where
  "buildError = \<lparr>kind = ''BuildError'', message = ''build failed'', errContext = []\<rparr>"

text \<open>The disk refuses the recursive delete.\<close>

definition env_rm_fails :: env where
  "env_rm_fails = env_ok\<lparr>rm := (\<lambda>w p. Some storageError)\<rparr>"

text \<open>The disk deletes but refuses to create the directory.\<close>

definition env_mkdir_fails :: env where
  "env_mkdir_fails = env_ok\<lparr>mkdir := (\<lambda>w p. Some storageError)\<rparr>"

text \<open>The package install fails; the engine install fails.\<close>

definition env_piece_fails :: env where
  "env_piece_fails = env_ok\<lparr>pieceManager_install := (\<lambda>w p ps. Some buildError)\<rparr>"

definition env_engine_fails :: env where
  "env_engine_fails = env_ok\<lparr>engineInstaller_install := (\<lambda>w p. Some buildError)\<rparr>"

text \<open>The dependency context cannot be initialised.\<close>

definition env_pm_fails :: env where
  "env_pm_fails = env_ok\<lparr>packageManager_init := (\<lambda>w p. Some buildError)\<rparr>"

text \<open>
  The dependency context cannot be initialised at the first attempt (nothing has been
  called yet) and can afterwards.
\<close>

definition env_pm_fails_once :: env where
  "env_pm_fails_once =
     env_ok\<lparr>packageManager_init := (\<lambda>w p. if w = [] then Some buildError else None)\<rparr>"

text \<open>
  The artifact named \<open>bad\<close> fails to build after one tick; every other artifact builds
  in five ticks.
\<close>

definition env_build_fails :: env where
  "env_build_fails =
     env_ok\<lparr>codeBuilder_processCodeStep :=
       (\<lambda>w n src p. if n = ''bad'' then Task 1 (Some buildError) else Task 5 None)\<rparr>"

text \<open>
  Every build rejects: the artifact named \<open>bad\<close> after one tick, any other after three
  ticks with an error of its own.
\<close>

definition lateError :: error where
  "lateError = \<lparr>kind = ''BuildError'', message = ''late failure'', errContext = []\<rparr>"

definition env_builds_fail :: env where
  "env_builds_fail =
     env_ok\<lparr>codeBuilder_processCodeStep :=
       (\<lambda>w n src p. if n = ''bad'' then Task 1 (Some buildError) else Task 3 (Some lateError))\<rparr>"

definition artifact_late :: CodeArtifact where
  "artifact_late = \<lparr>name = ''late'', sourceCode = ''throw later''\<rparr>"

definition slot_abc :: CachedSandbox where
  "slot_abc = new_CachedSandbox 0 ''abc''"

definition slot_initialized :: CachedSandbox where
  "slot_initialized = slot_abc\<lparr>p_state := INITIALIZED\<rparr>"

definition artifact_bad :: CodeArtifact where
  "artifact_bad = \<lparr>name = ''bad'', sourceCode = ''throw''\<rparr>"

definition artifact_good :: CodeArtifact where
  "artifact_good = \<lparr>name = ''good'', sourceCode = ''return 1''\<rparr>"

section \<open>Properties\<close>

lemma awaitCall_None [simp]: "awaitCall c None w = (Inr (), w @ [(c, Fulfilled)])"
  by (simp add: awaitCall_def)

lemma awaitCall_Some [simp]: "awaitCall c (Some e) w = (Inl e, w @ [(c, Rejected e)])"
  by (simp add: awaitCall_def)

lemmas model_defs =
  prepare_def prepareExclusive_def buildSequence_def buildCodeArchives_def init_def
  deletePathIfExists_def contextOf_def path_def lastUsedAt_def isInUse_def
  notInitializedError_def statusAt_def Let_def decrementActiveSandboxCount_def run_def
  unawaited_def installed_def installsSucceed_def fullSequence_def

lemmas fixture_defs =
  env_ok_def env_rm_fails_def env_mkdir_fails_def env_piece_fails_def env_engine_fails_def
  env_pm_fails_def env_pm_fails_once_def env_build_fails_def
  slot_abc_def
  slot_initialized_def new_CachedSandbox_def artifact_bad_def artifact_good_def
  storageError_def buildError_def enrichErrorContext_spec_def
  lateError_def env_builds_fail_def artifact_late_def

lemma path_frame [simp]:
  "path env (s\<lparr>p_activeSandboxCount := a\<rparr>) = path env s"
  "path env (s\<lparr>p_lastUsedAt := t\<rparr>) = path env s"
  "path env (s\<lparr>p_state := st\<rparr>) = path env s"
  by (simp_all add: path_def)

lemma buildCodeArchives_path:
  "path env s = path env s' \<Longrightarrow> buildCodeArchives env s cs w = buildCodeArchives env s' cs w"
  by (simp add: buildCodeArchives_def)

lemma buildSequence_path:
  "path env s = path env s' \<Longrightarrow> buildSequence env s ps cs w = buildSequence env s' ps cs w"
  by (simp add: buildSequence_def buildCodeArchives_path [of env s s'] split: prod.splits sum.splits)

lemma prepareExclusive_CREATED:
  "p_state s = CREATED \<Longrightarrow>
   prepareExclusive env now ps cs s w = (Inl (notInitializedError env s), s, w)"
  by (simp add: prepareExclusive_def)

lemma prepareExclusive_READY:
  "p_state s = READY \<Longrightarrow>
   prepareExclusive env now ps cs s w =
     (Inr (), s\<lparr>p_activeSandboxCount := p_activeSandboxCount s + 1, p_lastUsedAt := now\<rparr>, w)"
  by (simp add: prepareExclusive_def Let_def)

lemma prepareExclusive_INITIALIZED:
  "p_state s = INITIALIZED \<Longrightarrow>
   prepareExclusive env now ps cs s w =
     (case buildSequence env s ps cs w of
        (Inl e, w') \<Rightarrow>
          (Inl e, s\<lparr>p_activeSandboxCount := p_activeSandboxCount s + 1, p_lastUsedAt := now\<rparr>, w')
      | (Inr u, w') \<Rightarrow>
          (Inr (), s\<lparr>p_activeSandboxCount := p_activeSandboxCount s + 1, p_lastUsedAt := now,
                      p_state := READY\<rparr>, w'))"
  by (simp add: prepareExclusive_def Let_def
        buildSequence_path [of env "s\<lparr>p_activeSandboxCount := p_activeSandboxCount s + 1, p_lastUsedAt := now\<rparr>" s])

lemma launch_calls:
  "map fst (launch env p cs w) = map (\<lambda>a. ProcessCodeStep (name a) (sourceCode a) p) cs"
  by (induction cs arbitrary: w) (simp_all add: Let_def)

lemma promise_all_None:
  "promise_all ts = None \<longleftrightarrow> (\<forall>t \<in> set ts. outcome t = None)"
  by (induction ts) (auto split: option.splits if_splits)

lemma promise_all_Some:
  "promise_all ts = Some (d, e) \<Longrightarrow>
   (\<exists>t \<in> set ts. outcome t = Some e \<and> settlesAfter t = d)
   \<and> (\<forall>t \<in> set ts. outcome t \<noteq> None \<longrightarrow> d \<le> settlesAfter t)"
proof (induction ts arbitrary: d e)
  case Nil
  then show ?case by simp
next
  case (Cons t ts)
  show ?case
  proof (cases "outcome t")
    case None
    with Cons show ?thesis by auto
  next
    case (Some e0)
    show ?thesis
    proof (cases "promise_all ts")
      case None
      with Some Cons.prems show ?thesis
        by (auto simp: promise_all_None)
    next
      case (Some de)
      obtain d1 e1 where de: "de = (d1, e1)" by (cases de)
      from Cons.IH [of d1 e1] Some de
      have ih: "(\<exists>t \<in> set ts. outcome t = Some e1 \<and> settlesAfter t = d1)"
        "(\<forall>t \<in> set ts. outcome t \<noteq> None \<longrightarrow> d1 \<le> settlesAfter t)"
        by auto
      with \<open>outcome t = Some e0\<close> Some de Cons.prems show ?thesis
        by (auto split: if_splits)
    qed
  qed
qed

lemma prepare_CREATED:
  "p_state s = CREATED \<Longrightarrow>
   prepare env now params s w =
     (Inl (enrichErrorContext env (notInitializedError env s) ''[CachedSandbox#prepare]''
             (contextOf env (pieces params)
                (case codeSteps params of None \<Rightarrow> [] | Some given \<Rightarrow> given) s)),
      s, w)"
  by (simp add: prepare_def Let_def prepareExclusive_CREATED)

lemma prepare_READY:
  "p_state s = READY \<Longrightarrow>
   prepare env now params s w =
     (Inr (), s\<lparr>p_activeSandboxCount := p_activeSandboxCount s + 1, p_lastUsedAt := now\<rparr>, w)"
  by (simp add: prepare_def Let_def prepareExclusive_READY)

lemma prepare_INITIALIZED_fails:
  "p_state s = INITIALIZED \<Longrightarrow>
   buildSequence env s (pieces params)
     (case codeSteps params of None \<Rightarrow> [] | Some given \<Rightarrow> given) w = (Inl e, w') \<Longrightarrow>
   prepare env now params s w =
     (Inl (enrichErrorContext env e ''[CachedSandbox#prepare]''
             (contextOf env (pieces params)
                (case codeSteps params of None \<Rightarrow> [] | Some given \<Rightarrow> given)
                (s\<lparr>p_activeSandboxCount := p_activeSandboxCount s + 1, p_lastUsedAt := now\<rparr>))),
      s\<lparr>p_activeSandboxCount := p_activeSandboxCount s + 1, p_lastUsedAt := now\<rparr>, w')"
  by (simp add: prepare_def Let_def prepareExclusive_INITIALIZED)

lemma prepare_INITIALIZED_succeeds:
  "p_state s = INITIALIZED \<Longrightarrow>
   buildSequence env s (pieces params)
     (case codeSteps params of None \<Rightarrow> [] | Some given \<Rightarrow> given) w = (Inr u, w') \<Longrightarrow>
   prepare env now params s w =
     (Inr (), s\<lparr>p_activeSandboxCount := p_activeSandboxCount s + 1, p_lastUsedAt := now,
                 p_state := READY\<rparr>, w')"
  by (simp add: prepare_def Let_def prepareExclusive_INITIALIZED)

lemma prepare_slot:
  "(p_state s = CREATED \<and> fst (snd (prepare env now params s w)) = s)
   \<or> (p_state s \<noteq> CREATED
      \<and> (fst (snd (prepare env now params s w)) =
            s\<lparr>p_activeSandboxCount := p_activeSandboxCount s + 1, p_lastUsedAt := now\<rparr>
          \<or> fst (snd (prepare env now params s w)) =
            s\<lparr>p_activeSandboxCount := p_activeSandboxCount s + 1, p_lastUsedAt := now,
              p_state := READY\<rparr>))"
proof (cases "p_state s")
  case CREATED
  then show ?thesis by (simp add: prepare_CREATED)
next
  case READY
  then show ?thesis by (simp add: prepare_READY)
next
  case INITIALIZED
  obtain r w' where b: "buildSequence env s (pieces params)
     (case codeSteps params of None \<Rightarrow> [] | Some given \<Rightarrow> given) w = (r, w')"
    by (cases "buildSequence env s (pieces params)
     (case codeSteps params of None \<Rightarrow> [] | Some given \<Rightarrow> given) w")
  show ?thesis
  proof (cases r)
    case (Inl e)
    with INITIALIZED b show ?thesis by (simp add: prepare_INITIALIZED_fails)
  next
    case (Inr u)
    with INITIALIZED b show ?thesis by (simp add: prepare_INITIALIZED_succeeds)
  qed
qed

lemma init_slot:
  "fst (snd (init env s w)) = s \<or> fst (snd (init env s w)) = s\<lparr>p_state := INITIALIZED\<rparr>"
  by (simp add: init_def deletePathIfExists_def awaitCall_def split: option.splits)

lemma step_count_nonneg:
  "0 \<le> p_activeSandboxCount (fst sw) \<Longrightarrow> 0 \<le> p_activeSandboxCount (fst (step env x sw))"
proof (cases sw)
  case (Pair s w)
  assume nonneg: "0 \<le> p_activeSandboxCount (fst sw)"
  show ?thesis
  proof (cases x)
    case Init
    with Pair nonneg init_slot [of env s w] show ?thesis by auto
  next
    case (Prepare now params)
    with Pair nonneg prepare_slot [of s env now params w] show ?thesis by auto
  next
    case Release
    with Pair nonneg show ?thesis by (simp add: decrementActiveSandboxCount_def)
  qed
qed

lemma run_count_nonneg:
  "0 \<le> p_activeSandboxCount (fst sw) \<Longrightarrow> 0 \<le> p_activeSandboxCount (fst (run env xs sw))"
  unfolding run_def
  by (induction xs arbitrary: sw) (simp_all add: step_count_nonneg)


subsection \<open>Calling prepare before init\<close>

text \<open>
  C4: on a slot in state \<open>CREATED\<close>, every \<^verbatim>\<open>prepare\<close> call fails with the
  not-initialised error (passed through the enrichment of the catch block), and leaves
  the slot (state, active count, last-used time) and the world exactly as they were:
  no collaborator is called.
\<close>

theorem prepare_before_init_fails:
  assumes "p_state s = CREATED"
  shows "prepare env now params s w =
     (Inl (enrichErrorContext env (notInitializedError env s) ''[CachedSandbox#prepare]''
             (contextOf env (pieces params)
                (case codeSteps params of None \<Rightarrow> [] | Some given \<Rightarrow> given) s)),
      s, w)"
  using assms by (rule prepare_CREATED)

text \<open>The theorem at a fresh slot with key \<open>abc\<close>.\<close>

theorem prepare_before_init_fails_witness:
  "p_state slot_abc = CREATED
   \<and> prepare env_ok 7 \<lparr>pieces = [''pieceA''], codeSteps = None\<rparr> slot_abc [] =
     (Inl \<lparr>kind = ''Error'',
           message = ''[CachedSandbox#prepare] not initialized, Key=abc state=CREATED'',
           errContext = [(''[CachedSandbox#prepare]'',
             \<lparr>ctx_pieces = [''pieceA''], ctx_codeSteps = [], ctx_state = CREATED,
              ctx_activeSandboxes = 0, ctx_key = ''abc'', ctx_lastUsedAt = 0,
              ctx_isInUse = False, ctx_path = ''/tmp/cache/sandbox/abc''\<rparr>)]\<rparr>,
      slot_abc, [])"
proof -
  have created: "p_state slot_abc = CREATED"
    by (simp add: slot_abc_def new_CachedSandbox_def)
  show ?thesis
    using prepare_before_init_fails [OF created, of env_ok 7 "\<lparr>pieces = [''pieceA''], codeSteps = None\<rparr>" "[]"]
    by (simp add: created env_ok_def enrichErrorContext_spec_def notInitializedError_def
        contextOf_def lastUsedAt_def isInUse_def path_def slot_abc_def new_CachedSandbox_def)
qed

subsection \<open>The active count never goes negative\<close>

text \<open>
  C7: after any sequence of \<^verbatim>\<open>init\<close>, \<^verbatim>\<open>prepare\<close> and release calls on a new slot the
  active count is not negative; a release on a slot whose count is 0 changes nothing,
  and any other release lowers the count by exactly 1.
\<close>

theorem release_never_underflows:
  "0 \<le> p_activeSandboxCount (fst (run env xs (new_CachedSandbox now k, w)))
   \<and> (p_activeSandboxCount s = 0 \<longrightarrow> decrementActiveSandboxCount s = s)
   \<and> (p_activeSandboxCount s \<noteq> 0 \<longrightarrow>
        decrementActiveSandboxCount s = s\<lparr>p_activeSandboxCount := p_activeSandboxCount s - 1\<rparr>)"
proof -
  have "0 \<le> p_activeSandboxCount (fst (new_CachedSandbox now k, w))"
    by (simp add: new_CachedSandbox_def)
  then have "0 \<le> p_activeSandboxCount (fst (run env xs (new_CachedSandbox now k, w)))"
    by (rule run_count_nonneg)
  then show ?thesis by (simp add: decrementActiveSandboxCount_def)
qed

text \<open>One borrow released three times, and single releases at counts 0 and 2.\<close>

theorem release_never_underflows_witness:
  "0 \<le> p_activeSandboxCount (fst (run env_ok
       [Init, Prepare 1 \<lparr>pieces = [''pieceA''], codeSteps = Some []\<rparr>, Release, Release, Release]
       (new_CachedSandbox 0 ''abc'', [])))
   \<and> decrementActiveSandboxCount slot_abc = slot_abc
   \<and> decrementActiveSandboxCount (slot_abc\<lparr>p_activeSandboxCount := 2\<rparr>)
       = slot_abc\<lparr>p_activeSandboxCount := 1\<rparr>"
  using release_never_underflows [of env_ok
       "[Init, Prepare 1 \<lparr>pieces = [''pieceA''], codeSteps = Some []\<rparr>, Release, Release, Release]"
       0 "''abc''" "[]" slot_abc]
    release_never_underflows [of env_ok "[]" 0 "''abc''" "[]" "slot_abc\<lparr>p_activeSandboxCount := 2\<rparr>"]
  by (simp add: slot_abc_def new_CachedSandbox_def)


subsection \<open>The last-used timestamp\<close>

lemma init_lastUsedAt: "lastUsedAt (fst (snd (init env s w))) = lastUsedAt s"
  using init_slot [of env s w] by (auto simp: lastUsedAt_def)

lemma prepare_lastUsedAt:
  "lastUsedAt (fst (snd (prepare env now params s w))) =
     (if p_state s = CREATED then lastUsedAt s else now)"
  using prepare_slot [of s env now params w]
  by (auto simp: lastUsedAt_def prepare_CREATED)

lemma decrement_lastUsedAt: "lastUsedAt (decrementActiveSandboxCount s) = lastUsedAt s"
  by (simp add: decrementActiveSandboxCount_def lastUsedAt_def)

lemma run_Cons: "run env (x # xs) sw = run env xs (step env x sw)"
  by (simp add: run_def)

lemma run_lastUsedAt:
  "lastUsedAt (fst (run env xs sw)) = last (lastUsedAt (fst sw) # passedPrepares env xs sw)"
proof (induction xs arbitrary: sw)
  case Nil
  then show ?case by (simp add: run_def)
next
  case (Cons x xs)
  obtain s w where sw: "sw = (s, w)" by (cases sw)
  show ?case
  proof (cases x)
    case Init
    with sw Cons [of "step env Init sw"] show ?thesis
      by (simp add: run_Cons init_lastUsedAt)
  next
    case (Prepare now params)
    with sw Cons [of "step env (Prepare now params) sw"] show ?thesis
      by (simp add: run_Cons prepare_lastUsedAt)
  next
    case Release
    with sw Cons [of "step env Release sw"] show ?thesis
      by (simp add: run_Cons decrement_lastUsedAt)
  qed
qed

lemma passedPrepares_without_prepare:
  "\<forall>x \<in> set xs. x = Init \<or> x = Release \<Longrightarrow> passedPrepares env xs sw = []"
  by (induction env xs sw rule: passedPrepares.induct) simp_all

text \<open>
  C2, as amended: the last-used time changes exactly in a \<^verbatim>\<open>prepare\<close> call that finds
  the slot initialised, whether that call then succeeds or fails in its build, and
  becomes the time of that call. So after any run it is the time of the latest such
  call, or the value it had before the run when there was none; \<^verbatim>\<open>init\<close>, a release
  and a \<^verbatim>\<open>prepare\<close> on a \<open>CREATED\<close> slot leave it alone.
\<close>

theorem lastUsedAt_follows_passed_prepares:
  "lastUsedAt (fst (run env xs (s, w))) = last (lastUsedAt s # passedPrepares env xs (s, w))
   \<and> lastUsedAt (fst (snd (init env s w))) = lastUsedAt s
   \<and> lastUsedAt (decrementActiveSandboxCount s) = lastUsedAt s
   \<and> (p_state s = CREATED \<longrightarrow> lastUsedAt (fst (snd (prepare env now params s w))) = lastUsedAt s)
   \<and> (p_state s \<noteq> CREATED \<longrightarrow> lastUsedAt (fst (snd (prepare env now params s w))) = now)"
  using run_lastUsedAt [of env xs "(s, w)"]
  by (simp add: init_lastUsedAt decrement_lastUsedAt prepare_lastUsedAt)

text \<open>
  A \<^verbatim>\<open>prepare\<close> that returns an error changes the last-used time: on an initialised
  slot last used at time 0, the call made at time 7 fails in the dependency-context
  step and leaves the slot with last-used time 7.
\<close>

theorem failed_prepare_moves_lastUsedAt:
  "prepare env_pm_fails 7 \<lparr>pieces = [], codeSteps = None\<rparr> slot_initialized [] =
     (Inl (enrichErrorContext_spec buildError ''[CachedSandbox#prepare]''
            (contextOf env_pm_fails [] []
               (slot_initialized\<lparr>p_activeSandboxCount := 1, p_lastUsedAt := 7\<rparr>))),
      slot_initialized\<lparr>p_activeSandboxCount := 1, p_lastUsedAt := 7\<rparr>,
      [(PackageManagerInit ''/tmp/cache/sandbox/abc'', Rejected buildError)])
   \<and> lastUsedAt slot_initialized = 0
   \<and> lastUsedAt (slot_initialized\<lparr>p_activeSandboxCount := 1, p_lastUsedAt := 7\<rparr>) = 7"
  by (simp add: model_defs fixture_defs)

text \<open>
  C10: a new slot's \<^verbatim>\<open>lastUsedAt()\<close> is the time of its construction, a proper
  timestamp, and stays so through any calls of \<^verbatim>\<open>init\<close> and release made before the
  first \<^verbatim>\<open>prepare\<close>.
\<close>

theorem lastUsedAt_initially_construction_time:
  "lastUsedAt (new_CachedSandbox now k) = now
   \<and> ((\<forall>x \<in> set xs. x = Init \<or> x = Release) \<longrightarrow>
        lastUsedAt (fst (run env xs (new_CachedSandbox now k, w))) = now)"
  using run_lastUsedAt [of env xs "(new_CachedSandbox now k, w)"]
  by (simp add: passedPrepares_without_prepare) (simp add: lastUsedAt_def new_CachedSandbox_def)

subsection \<open>Initialising twice\<close>

lemma init_not_CREATED: "p_state s \<noteq> CREATED \<Longrightarrow> init env s w = (Inr (), s, w)"
  by (simp add: init_def)

lemma init_CREATED_ok:
  "p_state s = CREATED \<Longrightarrow> rm env w (path env s) = None \<Longrightarrow>
   mkdir env (w @ [(Rm (path env s), Fulfilled)]) (path env s) = None \<Longrightarrow>
   init env s w =
     (Inr (), s\<lparr>p_state := INITIALIZED\<rparr>,
      w @ [(Rm (path env s), Fulfilled), (Mkdir (path env s), Fulfilled)])"
  by (simp add: init_def deletePathIfExists_def)

lemma init_CREATED_rm_fails:
  "p_state s = CREATED \<Longrightarrow> rm env w (path env s) = Some e \<Longrightarrow>
   init env s w = (Inl e, s, w @ [(Rm (path env s), Rejected e)])"
  by (simp add: init_def deletePathIfExists_def)

lemma init_CREATED_mkdir_fails:
  "p_state s = CREATED \<Longrightarrow> rm env w (path env s) = None \<Longrightarrow>
   mkdir env (w @ [(Rm (path env s), Fulfilled)]) (path env s) = Some e \<Longrightarrow>
   init env s w =
     (Inl e, s, w @ [(Rm (path env s), Fulfilled), (Mkdir (path env s), Rejected e)])"
  by (simp add: init_def deletePathIfExists_def)

lemma init_CREATED_success:
  "p_state s = CREATED \<Longrightarrow> init env s w = (Inr u, s', w') \<Longrightarrow>
   s' = s\<lparr>p_state := INITIALIZED\<rparr>
   \<and> w' = w @ [(Rm (path env s), Fulfilled), (Mkdir (path env s), Fulfilled)]"
  by (auto simp: init_def deletePathIfExists_def awaitCall_def split: option.splits)

lemma init_success_not_CREATED:
  "init env s w = (Inr u, s', w') \<Longrightarrow> p_state s' \<noteq> CREATED"
  by (cases "p_state s = CREATED") (auto dest: init_CREATED_success simp: init_not_CREATED)


text \<open>
  C8: whenever \<^verbatim>\<open>init\<close> returns without error, a second \<^verbatim>\<open>init\<close> right after it
  returns without error too and changes neither the slot nor the world, so two calls
  in sequence end where one call ends. On a slot whose state is not \<open>CREATED\<close> the call
  returns at once, touching no field and calling no collaborator. From \<open>CREATED\<close> a
  successful call has deleted and then created the directory (both calls fulfilled,
  the \<^verbatim>\<open>mkdir\<close> last) and set the state to \<open>INITIALIZED\<close>; that is what happens when
  \<^verbatim>\<open>rm\<close> and \<^verbatim>\<open>mkdir\<close> succeed.
\<close>

theorem init_idempotent:
  "(init env s w = (Inr (), s', w') \<longrightarrow>
      init env s' w' = (Inr (), s', w') \<and> run env [Init, Init] (s, w) = run env [Init] (s, w))
   \<and> (p_state s \<noteq> CREATED \<longrightarrow> init env s w = (Inr (), s, w))
   \<and> (p_state s = CREATED \<and> init env s w = (Inr (), s', w') \<longrightarrow>
        s' = s\<lparr>p_state := INITIALIZED\<rparr>
        \<and> w' = w @ [(Rm (path env s), Fulfilled), (Mkdir (path env s), Fulfilled)])
   \<and> (p_state s = CREATED \<and> rm env w (path env s) = None
        \<and> mkdir env (w @ [(Rm (path env s), Fulfilled)]) (path env s) = None \<longrightarrow>
        init env s w =
          (Inr (), s\<lparr>p_state := INITIALIZED\<rparr>,
           w @ [(Rm (path env s), Fulfilled), (Mkdir (path env s), Fulfilled)]))"
proof (intro conjI impI)
  assume ok: "init env s w = (Inr (), s', w')"
  then have "p_state s' \<noteq> CREATED" by (rule init_success_not_CREATED)
  then show again: "init env s' w' = (Inr (), s', w')" by (rule init_not_CREATED)
  with ok show "run env [Init, Init] (s, w) = run env [Init] (s, w)" by (simp add: run_def)
next
  assume "p_state s \<noteq> CREATED"
  then show "init env s w = (Inr (), s, w)" by (rule init_not_CREATED)
next
  assume a: "p_state s = CREATED \<and> init env s w = (Inr (), s', w')"
  then show "s' = s\<lparr>p_state := INITIALIZED\<rparr>"
    using init_CREATED_success [of s env w "()" s' w'] by blast
  from a show "w' = w @ [(Rm (path env s), Fulfilled), (Mkdir (path env s), Fulfilled)]"
    using init_CREATED_success [of s env w "()" s' w'] by blast
next
  assume "p_state s = CREATED \<and> rm env w (path env s) = None
        \<and> mkdir env (w @ [(Rm (path env s), Fulfilled)]) (path env s) = None"
  then show "init env s w =
          (Inr (), s\<lparr>p_state := INITIALIZED\<rparr>,
           w @ [(Rm (path env s), Fulfilled), (Mkdir (path env s), Fulfilled)])"
    by (simp add: init_CREATED_ok)
qed

text \<open>A fresh slot on a disk that works, initialised twice.\<close>

theorem init_idempotent_witness:
  "init env_ok slot_abc [] =
     (Inr (), slot_initialized,
      [(Rm ''/tmp/cache/sandbox/abc'', Fulfilled), (Mkdir ''/tmp/cache/sandbox/abc'', Fulfilled)])
   \<and> init env_ok slot_initialized
       [(Rm ''/tmp/cache/sandbox/abc'', Fulfilled), (Mkdir ''/tmp/cache/sandbox/abc'', Fulfilled)] =
     (Inr (), slot_initialized,
      [(Rm ''/tmp/cache/sandbox/abc'', Fulfilled), (Mkdir ''/tmp/cache/sandbox/abc'', Fulfilled)])
   \<and> run env_ok [Init, Init] (slot_abc, []) = run env_ok [Init] (slot_abc, [])
   \<and> p_state slot_initialized = INITIALIZED"
proof -
  have created: "p_state slot_abc = CREATED"
    by (simp add: slot_abc_def new_CachedSandbox_def)
  have p: "path env_ok slot_abc = ''/tmp/cache/sandbox/abc''"
    by (simp add: path_def env_ok_def slot_abc_def new_CachedSandbox_def)
  have rm_ok: "rm env_ok [] (path env_ok slot_abc) = None"
    and mkdir_ok: "mkdir env_ok ([] @ [(Rm (path env_ok slot_abc), Fulfilled)]) (path env_ok slot_abc) = None"
    by (simp_all add: env_ok_def)
  note inst = init_idempotent [of env_ok slot_abc "[]" slot_initialized
      "[(Rm ''/tmp/cache/sandbox/abc'', Fulfilled), (Mkdir ''/tmp/cache/sandbox/abc'', Fulfilled)]"]
  have first: "init env_ok slot_abc [] =
     (Inr (), slot_initialized,
      [(Rm ''/tmp/cache/sandbox/abc'', Fulfilled), (Mkdir ''/tmp/cache/sandbox/abc'', Fulfilled)])"
    using inst created rm_ok mkdir_ok by (simp add: p slot_initialized_def)
  with inst show ?thesis
    by (simp add: slot_initialized_def p)
qed

text \<open>
  A run whose only \<^verbatim>\<open>prepare\<close> fails in the build at time 7, a \<^verbatim>\<open>prepare\<close> before
  \<^verbatim>\<open>init\<close>, and a failing \<^verbatim>\<open>prepare\<close> on an initialised slot.
\<close>

theorem lastUsedAt_follows_passed_prepares_witness:
  "lastUsedAt (fst (run env_pm_fails
      [Init, Prepare 7 \<lparr>pieces = [], codeSteps = None\<rparr>, Release] (slot_abc, []))) = 7
   \<and> lastUsedAt (fst (snd (prepare env_pm_fails 7 \<lparr>pieces = [], codeSteps = None\<rparr> slot_abc []))) = 0
   \<and> lastUsedAt (fst (snd (prepare env_pm_fails 7 \<lparr>pieces = [], codeSteps = None\<rparr> slot_initialized []))) = 7"
proof -
  have created: "p_state slot_abc = CREATED" and t0: "lastUsedAt slot_abc = 0"
    by (simp_all add: slot_abc_def new_CachedSandbox_def lastUsedAt_def)
  have initialized: "p_state slot_initialized \<noteq> CREATED"
    by (simp add: slot_initialized_def)
  have st: "p_state (fst (snd (init env_pm_fails slot_abc []))) = INITIALIZED"
    by (simp add: init_def deletePathIfExists_def env_pm_fails_def env_ok_def created)
  have passed: "passedPrepares env_pm_fails
      [Init, Prepare 7 \<lparr>pieces = [], codeSteps = None\<rparr>, Release] (slot_abc, []) = [7]"
    by (simp add: st)
  show ?thesis
    using lastUsedAt_follows_passed_prepares [of env_pm_fails
        "[Init, Prepare 7 \<lparr>pieces = [], codeSteps = None\<rparr>, Release]" slot_abc "[]" 7
        "\<lparr>pieces = [], codeSteps = None\<rparr>"]
      lastUsedAt_follows_passed_prepares [of env_pm_fails "[]" slot_initialized "[]" 7
        "\<lparr>pieces = [], codeSteps = None\<rparr>"]
    by (simp add: created t0 initialized st)
qed

text \<open>A slot built at time 42, initialised and released before any borrow.\<close>

theorem lastUsedAt_initially_construction_time_witness:
  "lastUsedAt (new_CachedSandbox 42 ''abc'') = 42
   \<and> lastUsedAt (fst (run env_ok [Init, Release, Init] (new_CachedSandbox 42 ''abc'', []))) = 42"
  using lastUsedAt_initially_construction_time [of 42 "''abc''" "[Init, Release, Init]" env_ok "[]"]
  by simp


subsection \<open>The build sequence, step by step\<close>

lemma buildSequence_packageManager_fails:
  "packageManager_init env w (path env s) = Some e \<Longrightarrow>
   buildSequence env s ps cs w = (Inl e, w @ [(PackageManagerInit (path env s), Rejected e)])"
  by (simp add: buildSequence_def)

lemma buildSequence_pieceManager_fails:
  "packageManager_init env w (path env s) = None \<Longrightarrow>
   pieceManager_install env (w @ [(PackageManagerInit (path env s), Fulfilled)]) (path env s) ps = Some e \<Longrightarrow>
   buildSequence env s ps cs w =
     (Inl e, w @ [(PackageManagerInit (path env s), Fulfilled),
                  (PieceManagerInstall (path env s) ps, Rejected e)])"
  by (simp add: buildSequence_def)

lemma buildSequence_engineInstaller_fails:
  "packageManager_init env w (path env s) = None \<Longrightarrow>
   pieceManager_install env (w @ [(PackageManagerInit (path env s), Fulfilled)]) (path env s) ps = None \<Longrightarrow>
   engineInstaller_install env
     (w @ [(PackageManagerInit (path env s), Fulfilled), (PieceManagerInstall (path env s) ps, Fulfilled)])
     (path env s) = Some e \<Longrightarrow>
   buildSequence env s ps cs w =
     (Inl e, w @ [(PackageManagerInit (path env s), Fulfilled),
                  (PieceManagerInstall (path env s) ps, Fulfilled),
                  (EngineInstall (path env s), Rejected e)])"
  by (simp add: buildSequence_def)

lemma buildSequence_installs_ok:
  "installsSucceed env (path env s) ps w \<Longrightarrow>
   buildSequence env s ps cs w = buildCodeArchives env s cs (installed (path env s) ps w)"
  by (simp add: buildSequence_def installsSucceed_def installed_def)

lemma buildCodeArchives_fulfilled:
  "promise_all (map snd (launch env (path env s) cs w)) = None \<Longrightarrow>
   buildCodeArchives env s cs w =
     (Inr (), w @ map (\<lambda>c. (c, Fulfilled)) (map (\<lambda>a. ProcessCodeStep (name a) (sourceCode a) (path env s)) cs))"
proof -
  assume none: "promise_all (map snd (launch env (path env s) cs w)) = None"
  have "map (\<lambda>(c, t). (c, Fulfilled)) (launch env (path env s) cs w)
        = map (\<lambda>c. (c, Fulfilled)) (map fst (launch env (path env s) cs w))"
    by (simp add: case_prod_unfold)
  with none show ?thesis
    by (simp add: buildCodeArchives_def launch_calls)
qed

lemma buildCodeArchives_rejected:
  "promise_all (map snd (launch env (path env s) cs w)) = Some (d, e) \<Longrightarrow>
   buildCodeArchives env s cs w =
     (Inl e, w @ map (\<lambda>(c, t). (c, statusAt d t)) (launch env (path env s) cs w))"
  by (simp add: buildCodeArchives_def)

lemma map_fst_relabel:
  "map (fst \<circ> (\<lambda>(c, t). (c, g t))) xs = map fst xs"
  by (induction xs) auto

lemma buildCodeArchives_calls:
  "map fst (snd (buildCodeArchives env s cs w)) =
     map fst w @ map (\<lambda>a. ProcessCodeStep (name a) (sourceCode a) (path env s)) cs"
  by (simp add: buildCodeArchives_def Let_def map_fst_relabel launch_calls split: option.splits)

lemma buildCodeArchives_success:
  "buildCodeArchives env s cs w = (Inr u, w') \<Longrightarrow>
   w' = w @ map (\<lambda>c. (c, Fulfilled)) (map (\<lambda>a. ProcessCodeStep (name a) (sourceCode a) (path env s)) cs)"
proof (cases "promise_all (map snd (launch env (path env s) cs w))")
  case None
  assume "buildCodeArchives env s cs w = (Inr u, w')"
  with None show ?thesis by (simp add: buildCodeArchives_fulfilled)
next
  case (Some de)
  assume "buildCodeArchives env s cs w = (Inr u, w')"
  with Some show ?thesis by (cases de) (simp add: buildCodeArchives_rejected)
qed

lemma buildSequence_cases:
  obtains (pm) e where "packageManager_init env w (path env s) = Some e"
  | (piece) e where "packageManager_init env w (path env s) = None"
      "pieceManager_install env (w @ [(PackageManagerInit (path env s), Fulfilled)]) (path env s) ps = Some e"
  | (engine) e where "packageManager_init env w (path env s) = None"
      "pieceManager_install env (w @ [(PackageManagerInit (path env s), Fulfilled)]) (path env s) ps = None"
      "engineInstaller_install env
         (w @ [(PackageManagerInit (path env s), Fulfilled), (PieceManagerInstall (path env s) ps, Fulfilled)])
         (path env s) = Some e"
  | (builds) "installsSucceed env (path env s) ps w"
  unfolding installsSucceed_def by (meson option.exhaust)

lemma buildSequence_calls:
  "\<exists>k. 1 \<le> k \<and> map fst (snd (buildSequence env s ps cs w)) =
         map fst w @ take k (fullSequence (path env s) ps cs)"
proof (cases rule: buildSequence_cases [where env = env and w = w and s = s and ps = ps])
  case (pm e)
  then have "map fst (snd (buildSequence env s ps cs w)) =
         map fst w @ take 1 (fullSequence (path env s) ps cs)"
    by (simp add: buildSequence_packageManager_fails fullSequence_def)
  then show ?thesis by blast
next
  case (piece e)
  then have "map fst (snd (buildSequence env s ps cs w)) =
         map fst w @ take 2 (fullSequence (path env s) ps cs)"
    by (simp add: buildSequence_pieceManager_fails fullSequence_def)
  then show ?thesis by (intro exI [of _ 2]) simp
next
  case (engine e)
  then have "map fst (snd (buildSequence env s ps cs w)) =
         map fst w @ take 3 (fullSequence (path env s) ps cs)"
    by (simp add: buildSequence_engineInstaller_fails fullSequence_def)
  then show ?thesis by (intro exI [of _ 3]) simp
next
  case builds
  then have "map fst (snd (buildSequence env s ps cs w)) =
         map fst w @ take (length (fullSequence (path env s) ps cs)) (fullSequence (path env s) ps cs)"
    by (simp add: buildSequence_installs_ok buildCodeArchives_calls fullSequence_def installed_def)
  moreover have "1 \<le> length (fullSequence (path env s) ps cs)"
    by (simp add: fullSequence_def)
  ultimately show ?thesis by blast
qed

lemma buildSequence_success:
  assumes "buildSequence env s ps cs w = (Inr u, w')"
  shows "installsSucceed env (path env s) ps w
    \<and> promise_all (map snd (launch env (path env s) cs (installed (path env s) ps w))) = None
    \<and> w' = w @ map (\<lambda>c. (c, Fulfilled)) (fullSequence (path env s) ps cs)"
proof (cases rule: buildSequence_cases [where env = env and w = w and s = s and ps = ps])
  case (pm e)
  with assms show ?thesis by (simp add: buildSequence_packageManager_fails)
next
  case (piece e)
  with assms show ?thesis by (simp add: buildSequence_pieceManager_fails)
next
  case (engine e)
  with assms show ?thesis by (simp add: buildSequence_engineInstaller_fails)
next
  case builds
  with assms have b: "buildCodeArchives env s cs (installed (path env s) ps w) = (Inr u, w')"
    by (simp add: buildSequence_installs_ok)
  have none: "promise_all (map snd (launch env (path env s) cs (installed (path env s) ps w))) = None"
  proof (cases "promise_all (map snd (launch env (path env s) cs (installed (path env s) ps w)))")
    case None
    then show ?thesis .
  next
    case (Some de)
    with b show ?thesis by (cases de) (simp add: buildCodeArchives_rejected)
  qed
  from b have "w' = installed (path env s) ps w
      @ map (\<lambda>c. (c, Fulfilled)) (map (\<lambda>a. ProcessCodeStep (name a) (sourceCode a) (path env s)) cs)"
    by (rule buildCodeArchives_success)
  with builds none show ?thesis
    by (simp add: installed_def fullSequence_def)
qed

lemma buildSequence_all_succeed:
  "installsSucceed env (path env s) ps w \<Longrightarrow>
   promise_all (map snd (launch env (path env s) cs (installed (path env s) ps w))) = None \<Longrightarrow>
   buildSequence env s ps cs w = (Inr (), w @ map (\<lambda>c. (c, Fulfilled)) (fullSequence (path env s) ps cs))"
  by (simp add: buildSequence_installs_ok buildCodeArchives_fulfilled installed_def fullSequence_def)

lemma prepare_world:
  "snd (snd (prepare env now params s w)) =
     (if p_state s = INITIALIZED
      then snd (buildSequence env s (pieces params)
                 (case codeSteps params of None \<Rightarrow> [] | Some given \<Rightarrow> given) w)
      else w)"
proof (cases "p_state s")
  case CREATED
  then show ?thesis by (simp add: prepare_CREATED)
next
  case READY
  then show ?thesis by (simp add: prepare_READY)
next
  case INITIALIZED
  obtain r w' where b: "buildSequence env s (pieces params)
     (case codeSteps params of None \<Rightarrow> [] | Some given \<Rightarrow> given) w = (r, w')"
    by (cases "buildSequence env s (pieces params)
     (case codeSteps params of None \<Rightarrow> [] | Some given \<Rightarrow> given) w")
  show ?thesis
  proof (cases r)
    case (Inl e)
    with INITIALIZED b show ?thesis by (simp add: prepare_INITIALIZED_fails)
  next
    case (Inr u)
    with INITIALIZED b show ?thesis by (simp add: prepare_INITIALIZED_succeeds)
  qed
qed


lemma buildSequence_build_rejects:
  assumes installs: "installsSucceed env (path env s) ps w"
    and rejects: "\<exists>t \<in> set (map snd (launch env (path env s) cs (installed (path env s) ps w))).
                    outcome t \<noteq> None"
  shows "\<exists>t \<in> set (map snd (launch env (path env s) cs (installed (path env s) ps w))).
           \<exists>e. outcome t = Some e
             \<and> (\<forall>t' \<in> set (map snd (launch env (path env s) cs (installed (path env s) ps w))).
                    outcome t' \<noteq> None \<longrightarrow> settlesAfter t \<le> settlesAfter t')
             \<and> buildSequence env s ps cs w =
                   (Inl e, installed (path env s) ps w
                      @ map (\<lambda>(c, t'). (c, statusAt (settlesAfter t) t'))
                          (launch env (path env s) cs (installed (path env s) ps w)))"
proof -
  let ?jobs = "launch env (path env s) cs (installed (path env s) ps w)"
  from rejects have "promise_all (map snd ?jobs) \<noteq> None"
    by (auto simp: promise_all_None)
  then obtain d e where first: "promise_all (map snd ?jobs) = Some (d, e)"
    by (cases "promise_all (map snd ?jobs)") auto
  from promise_all_Some [OF first] obtain t where t: "t \<in> set (map snd ?jobs)"
    "outcome t = Some e" "settlesAfter t = d"
    and least: "\<forall>t' \<in> set (map snd ?jobs). outcome t' \<noteq> None \<longrightarrow> d \<le> settlesAfter t'"
    by blast
  from installs first have "buildSequence env s ps cs w =
      (Inl e, installed (path env s) ps w @ map (\<lambda>(c, t'). (c, statusAt d t')) ?jobs)"
    by (simp add: buildSequence_installs_ok buildCodeArchives_rejected)
  with t least show ?thesis
    by blast
qed

subsection \<open>The order of the build sequence\<close>

lemma prepare_build_order_join:
  fixes params :: PrepareParams
  defines "ps \<equiv> pieces params"
    and "cs \<equiv> (case codeSteps params of None \<Rightarrow> [] | Some given \<Rightarrow> given)"
  assumes result: "prepare env now params s w = (r, s', w')"
  shows "(p_state s = INITIALIZED \<longrightarrow>
            (\<exists>k. 1 \<le> k \<and> map fst w' = map fst w @ take k (fullSequence (path env s) ps cs))
            \<and> (p_state s' = READY \<longleftrightarrow> r = Inr ())
            \<and> (r = Inr () \<longleftrightarrow>
                 installsSucceed env (path env s) ps w
                 \<and> promise_all (map snd (launch env (path env s) cs (installed (path env s) ps w))) = None)
            \<and> (r = Inr () \<longrightarrow>
                 w' = w @ map (\<lambda>c. (c, Fulfilled)) (fullSequence (path env s) ps cs)))
         \<and> (p_state s = READY \<longrightarrow>
              r = Inr () \<and> w' = w
              \<and> s' = s\<lparr>p_activeSandboxCount := p_activeSandboxCount s + 1, p_lastUsedAt := now\<rparr>)"
proof (intro conjI impI)
  assume "p_state s = READY"
  with result show "r = Inr ()" "w' = w"
    "s' = s\<lparr>p_activeSandboxCount := p_activeSandboxCount s + 1, p_lastUsedAt := now\<rparr>"
    by (simp_all add: prepare_READY)
next
  assume st: "p_state s = INITIALIZED"
  obtain b w1 where b: "buildSequence env s ps cs w = (b, w1)"
    by (cases "buildSequence env s ps cs w")
  from st result have "w' = snd (buildSequence env s ps cs w)"
    using prepare_world [of env now params s w] by (simp add: ps_def cs_def)
  then show "\<exists>k. 1 \<le> k \<and> map fst w' = map fst w @ take k (fullSequence (path env s) ps cs)"
    using buildSequence_calls [of env s ps cs w] by simp
  have fails: "r \<noteq> Inr () \<and> p_state s' = INITIALIZED" if "b = Inl e" for e
    using that st b result prepare_INITIALIZED_fails [of s env params w e w1 now]
    by (auto simp: ps_def cs_def)
  have succeeds: "r = Inr () \<and> p_state s' = READY \<and> w' = w1" if "b = Inr u" for u
    using that st b result prepare_INITIALIZED_succeeds [of s env params w u w1 now]
    by (auto simp: ps_def cs_def)
  show "p_state s' = READY \<longleftrightarrow> r = Inr ()"
    using fails succeeds by (cases b) auto
  show "r = Inr () \<longleftrightarrow>
          installsSucceed env (path env s) ps w
          \<and> promise_all (map snd (launch env (path env s) cs (installed (path env s) ps w))) = None"
  proof
    assume "r = Inr ()"
    with fails obtain u where "b = Inr u" by (cases b) auto
    with b show "installsSucceed env (path env s) ps w
          \<and> promise_all (map snd (launch env (path env s) cs (installed (path env s) ps w))) = None"
      using buildSequence_success [of env s ps cs w u w1] by simp
  next
    assume "installsSucceed env (path env s) ps w
          \<and> promise_all (map snd (launch env (path env s) cs (installed (path env s) ps w))) = None"
    then have "buildSequence env s ps cs w =
        (Inr (), w @ map (\<lambda>c. (c, Fulfilled)) (fullSequence (path env s) ps cs))"
      by (simp add: buildSequence_all_succeed)
    with b succeeds show "r = Inr ()" by simp
  qed
  show "w' = w @ map (\<lambda>c. (c, Fulfilled)) (fullSequence (path env s) ps cs)" if "r = Inr ()"
  proof -
    from that fails obtain u where u: "b = Inr u" by (cases b) auto
    with succeeds have "w' = w1" by simp
    with u b show ?thesis
      using buildSequence_success [of env s ps cs w u w1] by simp
  qed
qed

text \<open>
  C6: a \<^verbatim>\<open>prepare\<close> on an \<open>INITIALIZED\<close> slot calls the collaborators in the order
  dependency-context init, package install with the requested pieces, engine install,
  then one build per code artifact: the calls it adds to the world are a non-empty
  initial part of that sequence, the whole of it when the call succeeds, with every
  call fulfilled. The state becomes \<open>READY\<close> exactly when the call succeeds, which is
  exactly when the dependency-context init, the package install and the engine
  install return no error and no launched build task rejects. A \<^verbatim>\<open>prepare\<close> on a
  \<open>READY\<close> slot succeeds, calls no collaborator and only counts the borrower.
\<close>

theorem prepare_build_order:
  fixes params :: PrepareParams
  defines "ps \<equiv> pieces params"
    and "cs \<equiv> (case codeSteps params of None \<Rightarrow> [] | Some given \<Rightarrow> given)"
  assumes result: "prepare env now params s w = (r, s', w')"
  shows "(p_state s = INITIALIZED \<longrightarrow>
            (\<exists>k. 1 \<le> k \<and> map fst w' = map fst w @ take k (fullSequence (path env s) ps cs))
            \<and> (p_state s' = READY \<longleftrightarrow> r = Inr ())
            \<and> (r = Inr () \<longleftrightarrow>
                 installsSucceed env (path env s) ps w
                 \<and> (\<forall>t \<in> set (map snd (launch env (path env s) cs (installed (path env s) ps w))).
                        outcome t = None))
            \<and> (r = Inr () \<longrightarrow>
                 w' = w @ map (\<lambda>c. (c, Fulfilled)) (fullSequence (path env s) ps cs)))
         \<and> (p_state s = READY \<longrightarrow>
              r = Inr () \<and> w' = w
              \<and> s' = s\<lparr>p_activeSandboxCount := p_activeSandboxCount s + 1, p_lastUsedAt := now\<rparr>)"
  using prepare_build_order_join [OF result]
  unfolding ps_def cs_def promise_all_None .

text \<open>
  The first borrow of an initialised slot builds it; the second reuses it. With a
  build that rejects, the call fails and the slot does not become \<open>READY\<close>.
\<close>

theorem prepare_build_order_witness:
  "prepare env_ok 7 \<lparr>pieces = [''pieceA''], codeSteps = Some [artifact_good]\<rparr> slot_initialized [] =
     (Inr (), slot_initialized\<lparr>p_activeSandboxCount := 1, p_lastUsedAt := 7, p_state := READY\<rparr>,
      [(PackageManagerInit ''/tmp/cache/sandbox/abc'', Fulfilled),
       (PieceManagerInstall ''/tmp/cache/sandbox/abc'' [''pieceA''], Fulfilled),
       (EngineInstall ''/tmp/cache/sandbox/abc'', Fulfilled),
       (ProcessCodeStep ''good'' ''return 1'' ''/tmp/cache/sandbox/abc'', Fulfilled)])
   \<and> prepare env_ok 8 \<lparr>pieces = [''pieceA''], codeSteps = Some [artifact_good]\<rparr>
        (slot_initialized\<lparr>p_activeSandboxCount := 1, p_lastUsedAt := 7, p_state := READY\<rparr>) [] =
     (Inr (), slot_initialized\<lparr>p_activeSandboxCount := 2, p_lastUsedAt := 8, p_state := READY\<rparr>, [])
   \<and> fst (prepare env_build_fails 7 \<lparr>pieces = [], codeSteps = Some [artifact_good, artifact_bad]\<rparr>
            slot_initialized []) \<noteq> Inr ()
   \<and> p_state (fst (snd (prepare env_build_fails 7
            \<lparr>pieces = [], codeSteps = Some [artifact_good, artifact_bad]\<rparr> slot_initialized []))) \<noteq> READY"
proof -
  define params3 where "params3 = \<lparr>pieces = [], codeSteps = Some [artifact_good, artifact_bad]\<rparr>"
  obtain r3 s3 w3 where third: "prepare env_build_fails 7 params3 slot_initialized [] = (r3, s3, w3)"
    by (cases "prepare env_build_fails 7 params3 slot_initialized []") auto
  have rejecting: "\<not> (\<forall>t \<in> set (map snd (launch env_build_fails (path env_build_fails slot_initialized)
        [artifact_good, artifact_bad]
        (installed (path env_build_fails slot_initialized) [] []))). outcome t = None)"
    by (simp add: Let_def env_build_fails_def env_ok_def artifact_good_def artifact_bad_def)
  define params where "params = \<lparr>pieces = [''pieceA''], codeSteps = Some [artifact_good]\<rparr>"
  define ready where "ready = slot_initialized\<lparr>p_activeSandboxCount := 1, p_lastUsedAt := 7, p_state := READY\<rparr>"
  obtain r s' w' where first: "prepare env_ok 7 params slot_initialized [] = (r, s', w')"
    by (cases "prepare env_ok 7 params slot_initialized []") auto
  obtain r2 s2 w2 where second: "prepare env_ok 8 params ready [] = (r2, s2, w2)"
    by (cases "prepare env_ok 8 params ready []") auto
  have st: "p_state slot_initialized = INITIALIZED" "p_state ready = READY"
    by (simp_all add: slot_initialized_def ready_def)
  have ok: "installsSucceed env_ok (path env_ok slot_initialized) [''pieceA''] []"
    "\<forall>t \<in> set (map snd (launch env_ok (path env_ok slot_initialized) [artifact_good]
        (installed (path env_ok slot_initialized) [''pieceA''] []))). outcome t = None"
    by (simp_all add: installsSucceed_def Let_def env_ok_def)
  have slot1: "s' = ready"
    using first st
    by (simp add: params_def ready_def model_defs fixture_defs)
  from prepare_build_order [OF first] st ok
  have "r = Inr ()" "w' = map (\<lambda>c. (c, Fulfilled))
      (fullSequence (path env_ok slot_initialized) [''pieceA''] [artifact_good])"
    by (simp_all add: params_def)
  moreover from prepare_build_order [OF second] st
  have "r2 = Inr ()" "w2 = []" "s2 = ready\<lparr>p_activeSandboxCount := p_activeSandboxCount ready + 1, p_lastUsedAt := 8\<rparr>"
    by simp_all
  moreover from prepare_build_order [OF third] st rejecting
  have "r3 \<noteq> Inr ()" "p_state s3 \<noteq> READY"
    by (simp_all add: params3_def)
  ultimately show ?thesis
    using first second third slot1
    by (simp add: params_def params3_def ready_def fullSequence_def path_def fixture_defs)
qed


subsection \<open>A failed build\<close>

lemma prepare_after_failed_sequence:
  fixes s :: CachedSandbox and now :: timestamp and params params2 :: PrepareParams
  defines "cs \<equiv> (case codeSteps params of None \<Rightarrow> [] | Some given \<Rightarrow> given)"
    and "cs2 \<equiv> (case codeSteps params2 of None \<Rightarrow> [] | Some given \<Rightarrow> given)"
    and "s1 \<equiv> s\<lparr>p_activeSandboxCount := p_activeSandboxCount s + 1, p_lastUsedAt := now\<rparr>"
  assumes initialized: "p_state s = INITIALIZED"
    and failure: "buildSequence env s (pieces params) cs w = (Inl e, w')"
  shows "prepare env now params s w =
           (Inl (enrichErrorContext env e ''[CachedSandbox#prepare]''
                  (contextOf env (pieces params) cs s1)), s1, w')
         \<and> p_state s1 = INITIALIZED
         \<and> (\<exists>st rest. snd (snd (prepare env now2 params2 s1 w')) =
                w' @ (PackageManagerInit (path env s), st) # rest)
         \<and> (buildSequence env s (pieces params2) cs2 w' = (Inr (), w'') \<longrightarrow>
              prepare env now2 params2 s1 w' =
                (Inr (), s\<lparr>p_activeSandboxCount := p_activeSandboxCount s + 2,
                           p_lastUsedAt := now2, p_state := READY\<rparr>, w''))"
proof (intro conjI impI)
  show "prepare env now params s w =
           (Inl (enrichErrorContext env e ''[CachedSandbox#prepare]''
                  (contextOf env (pieces params) cs s1)), s1, w')"
    using initialized failure
    by (simp add: prepare_INITIALIZED_fails cs_def s1_def)
  show st1: "p_state s1 = INITIALIZED"
    using initialized by (simp add: s1_def)
  have p1: "path env s1 = path env s"
    by (simp add: s1_def)
  have same: "buildSequence env s1 ps' cs' w' = buildSequence env s ps' cs' w'" for ps' cs'
    using p1 by (rule buildSequence_path)
  have "\<exists>st rest. snd (buildSequence env s (pieces params2) cs2 w') =
          w' @ (PackageManagerInit (path env s), st) # rest"
    by (cases rule: buildSequence_cases [where env = env and w = w' and s = s and ps = "pieces params2"])
      (simp_all add: buildSequence_packageManager_fails buildSequence_pieceManager_fails
        buildSequence_engineInstaller_fails buildSequence_installs_ok installed_def
        buildCodeArchives_def Let_def split: option.splits)
  then show "\<exists>st rest. snd (snd (prepare env now2 params2 s1 w')) =
                w' @ (PackageManagerInit (path env s), st) # rest"
    using st1 by (simp add: prepare_world same cs2_def)
  assume "buildSequence env s (pieces params2) cs2 w' = (Inr (), w'')"
  then have "buildSequence env s1 (pieces params2) cs2 w' = (Inr (), w'')"
    by (simp add: same)
  then show "prepare env now2 params2 s1 w' =
                (Inr (), s\<lparr>p_activeSandboxCount := p_activeSandboxCount s + 2,
                           p_lastUsedAt := now2, p_state := READY\<rparr>, w'')"
    using st1 prepare_INITIALIZED_succeeds [of s1 env params2 w' "()" w'' now2]
    by (simp add: cs2_def s1_def)
qed

text \<open>
  C3: on an \<open>INITIALIZED\<close> slot, when the dependency-context init returns an error,
  or the package install, or the engine install, or when the installs succeed and a
  launched build task rejects, \<^verbatim>\<open>prepare\<close> returns that step's error (for the builds:
  the error of a task that rejects earliest), enriched. The state is still
  \<open>INITIALIZED\<close>, the active count stays raised by one and the last-used time stays the
  time of the call. So the next \<^verbatim>\<open>prepare\<close> starts the build sequence again with the
  dependency-context init, and makes the slot \<open>READY\<close>, with the whole sequence called
  and fulfilled, when this time the installs succeed and no build task rejects. The
  context attached to the error is the one of a call with no other caller queued on
  the lock: the catch block runs after the lock is released, and reads the slot then.
\<close>

theorem prepare_failure_keeps_borrow:
  fixes env :: env and s :: CachedSandbox and now now2 :: timestamp
    and params params2 :: PrepareParams and w :: world
  defines "p \<equiv> path env s"
    and "ps \<equiv> pieces params"
    and "cs \<equiv> (case codeSteps params of None \<Rightarrow> [] | Some given \<Rightarrow> given)"
    and "ps2 \<equiv> pieces params2"
    and "cs2 \<equiv> (case codeSteps params2 of None \<Rightarrow> [] | Some given \<Rightarrow> given)"
    and "s1 \<equiv> s\<lparr>p_activeSandboxCount := p_activeSandboxCount s + 1, p_lastUsedAt := now\<rparr>"
    and "jobs \<equiv> launch env (path env s)
                  (case codeSteps params of None \<Rightarrow> [] | Some given \<Rightarrow> given)
                  (installed (path env s) (pieces params) w)"
    and "w' \<equiv> snd (snd (prepare env now params s w))"
  assumes initialized: "p_state s = INITIALIZED"
    and step_fails:
      "packageManager_init env w p \<noteq> None
       \<or> (packageManager_init env w p = None
          \<and> pieceManager_install env (w @ [(PackageManagerInit p, Fulfilled)]) p ps \<noteq> None)
       \<or> (packageManager_init env w p = None
          \<and> pieceManager_install env (w @ [(PackageManagerInit p, Fulfilled)]) p ps = None
          \<and> engineInstaller_install env
               (w @ [(PackageManagerInit p, Fulfilled), (PieceManagerInstall p ps, Fulfilled)]) p
               \<noteq> None)
       \<or> (installsSucceed env p ps w \<and> (\<exists>t \<in> set (map snd jobs). outcome t \<noteq> None))"
  shows "(\<exists>e. fst (prepare env now params s w) =
               Inl (enrichErrorContext env e ''[CachedSandbox#prepare]'' (contextOf env ps cs s1))
            \<and> (packageManager_init env w p = Some e
               \<or> (packageManager_init env w p = None
                  \<and> pieceManager_install env (w @ [(PackageManagerInit p, Fulfilled)]) p ps = Some e)
               \<or> (packageManager_init env w p = None
                  \<and> pieceManager_install env (w @ [(PackageManagerInit p, Fulfilled)]) p ps = None
                  \<and> engineInstaller_install env
                       (w @ [(PackageManagerInit p, Fulfilled), (PieceManagerInstall p ps, Fulfilled)]) p
                       = Some e)
               \<or> (installsSucceed env p ps w
                  \<and> (\<exists>t \<in> set (map snd jobs). outcome t = Some e
                        \<and> (\<forall>t' \<in> set (map snd jobs).
                               outcome t' \<noteq> None \<longrightarrow> settlesAfter t \<le> settlesAfter t')))))
         \<and> fst (snd (prepare env now params s w)) = s1
         \<and> p_state s1 = INITIALIZED
         \<and> p_activeSandboxCount s1 = p_activeSandboxCount s + 1
         \<and> lastUsedAt s1 = now
         \<and> (\<exists>st rest. snd (snd (prepare env now2 params2 s1 w')) =
                w' @ (PackageManagerInit p, st) # rest)
         \<and> (installsSucceed env p ps2 w'
              \<and> (\<forall>t \<in> set (map snd (launch env p cs2 (installed p ps2 w'))). outcome t = None) \<longrightarrow>
              prepare env now2 params2 s1 w' =
                (Inr (), s\<lparr>p_activeSandboxCount := p_activeSandboxCount s + 2,
                           p_lastUsedAt := now2, p_state := READY\<rparr>,
                 w' @ map (\<lambda>c. (c, Fulfilled)) (fullSequence p ps2 cs2)))"
proof -
  have "\<exists>e w1. buildSequence env s ps cs w = (Inl e, w1)
          \<and> (packageManager_init env w p = Some e
               \<or> (packageManager_init env w p = None
                  \<and> pieceManager_install env (w @ [(PackageManagerInit p, Fulfilled)]) p ps = Some e)
               \<or> (packageManager_init env w p = None
                  \<and> pieceManager_install env (w @ [(PackageManagerInit p, Fulfilled)]) p ps = None
                  \<and> engineInstaller_install env
                       (w @ [(PackageManagerInit p, Fulfilled), (PieceManagerInstall p ps, Fulfilled)]) p
                       = Some e)
               \<or> (installsSucceed env p ps w
                  \<and> (\<exists>t \<in> set (map snd jobs). outcome t = Some e
                        \<and> (\<forall>t' \<in> set (map snd jobs).
                               outcome t' \<noteq> None \<longrightarrow> settlesAfter t \<le> settlesAfter t'))))"
    using step_fails
  proof (elim disjE conjE)
    assume "packageManager_init env w p \<noteq> None"
    then obtain e where "packageManager_init env w p = Some e" by auto
    then show ?thesis
      using buildSequence_packageManager_fails [of env w s e ps cs] by (auto simp: p_def)
  next
    assume "packageManager_init env w p = None"
      "pieceManager_install env (w @ [(PackageManagerInit p, Fulfilled)]) p ps \<noteq> None"
    then obtain e where "packageManager_init env w p = None"
      "pieceManager_install env (w @ [(PackageManagerInit p, Fulfilled)]) p ps = Some e" by auto
    then show ?thesis
      using buildSequence_pieceManager_fails [of env w s ps e cs] by (auto simp: p_def)
  next
    assume "packageManager_init env w p = None"
      "pieceManager_install env (w @ [(PackageManagerInit p, Fulfilled)]) p ps = None"
      "engineInstaller_install env
         (w @ [(PackageManagerInit p, Fulfilled), (PieceManagerInstall p ps, Fulfilled)]) p \<noteq> None"
    then obtain e where "packageManager_init env w p = None"
      "pieceManager_install env (w @ [(PackageManagerInit p, Fulfilled)]) p ps = None"
      "engineInstaller_install env
         (w @ [(PackageManagerInit p, Fulfilled), (PieceManagerInstall p ps, Fulfilled)]) p = Some e"
      by auto
    then show ?thesis
      using buildSequence_engineInstaller_fails [of env w s ps e cs] by (auto simp: p_def)
  next
    assume installs: "installsSucceed env p ps w"
      and "\<exists>t \<in> set (map snd jobs). outcome t \<noteq> None"
    then have "\<exists>t \<in> set (map snd (launch env (path env s) cs (installed (path env s) ps w))).
                    outcome t \<noteq> None"
      by (simp add: jobs_def cs_def ps_def)
    from buildSequence_build_rejects [OF installs [unfolded p_def] this]
    obtain t e where "t \<in> set (map snd jobs)" "outcome t = Some e"
      "\<forall>t' \<in> set (map snd jobs). outcome t' \<noteq> None \<longrightarrow> settlesAfter t \<le> settlesAfter t'"
      "buildSequence env s ps cs w =
         (Inl e, installed (path env s) ps w
            @ map (\<lambda>(c, t'). (c, statusAt (settlesAfter t) t')) jobs)"
      unfolding jobs_def cs_def ps_def by blast
    with installs show ?thesis by blast
  qed
  then obtain e w1 where b: "buildSequence env s ps cs w = (Inl e, w1)"
    and which: "packageManager_init env w p = Some e
               \<or> (packageManager_init env w p = None
                  \<and> pieceManager_install env (w @ [(PackageManagerInit p, Fulfilled)]) p ps = Some e)
               \<or> (packageManager_init env w p = None
                  \<and> pieceManager_install env (w @ [(PackageManagerInit p, Fulfilled)]) p ps = None
                  \<and> engineInstaller_install env
                       (w @ [(PackageManagerInit p, Fulfilled), (PieceManagerInstall p ps, Fulfilled)]) p
                       = Some e)
               \<or> (installsSucceed env p ps w
                  \<and> (\<exists>t \<in> set (map snd jobs). outcome t = Some e
                        \<and> (\<forall>t' \<in> set (map snd jobs).
                               outcome t' \<noteq> None \<longrightarrow> settlesAfter t \<le> settlesAfter t')))"
    by blast
  from b have b': "buildSequence env s (pieces params)
      (case codeSteps params of None \<Rightarrow> [] | Some given \<Rightarrow> given) w = (Inl e, w1)"
    by (simp add: ps_def cs_def)
  note after = prepare_after_failed_sequence [OF initialized b', of now now2 params2]
  from after have result: "prepare env now params s w =
      (Inl (enrichErrorContext env e ''[CachedSandbox#prepare]'' (contextOf env ps cs s1)), s1, w1)"
    by (simp add: ps_def cs_def s1_def)
  then have w1: "w' = w1"
    by (simp add: w'_def)
  have retry: "\<exists>st rest. snd (snd (prepare env now2 params2 s1 w')) =
                w' @ (PackageManagerInit p, st) # rest"
    using after by (simp add: w1 s1_def p_def)
  have rebuilt: "prepare env now2 params2 s1 w' =
                (Inr (), s\<lparr>p_activeSandboxCount := p_activeSandboxCount s + 2,
                           p_lastUsedAt := now2, p_state := READY\<rparr>,
                 w' @ map (\<lambda>c. (c, Fulfilled)) (fullSequence p ps2 cs2))"
    if ok: "installsSucceed env p ps2 w'
              \<and> (\<forall>t \<in> set (map snd (launch env p cs2 (installed p ps2 w'))). outcome t = None)"
  proof -
    from ok have "buildSequence env s ps2 cs2 w' =
        (Inr (), w' @ map (\<lambda>c. (c, Fulfilled)) (fullSequence p ps2 cs2))"
      by (simp add: p_def buildSequence_all_succeed promise_all_None)
    then have "buildSequence env s (pieces params2)
        (case codeSteps params2 of None \<Rightarrow> [] | Some given \<Rightarrow> given) w1 =
        (Inr (), w' @ map (\<lambda>c. (c, Fulfilled)) (fullSequence p ps2 cs2))"
      by (simp add: ps2_def cs2_def w1)
    with prepare_after_failed_sequence [OF initialized b', of now now2 params2
        "w' @ map (\<lambda>c. (c, Fulfilled)) (fullSequence p ps2 cs2)"]
    show ?thesis
      by (simp add: w1 s1_def)
  qed
  from result which retry rebuilt initialized show ?thesis
    by (simp add: s1_def lastUsedAt_def) blast
qed

text \<open>
  One failing step at a time on an initialised slot. A dependency context that fails
  at the first attempt only: the first borrow fails, the second one rebuilds and
  succeeds, and both are counted. A failing package install, a failing engine install
  and a rejecting build each leave the slot \<open>INITIALIZED\<close> with the borrow counted.
\<close>

theorem prepare_failure_keeps_borrow_witness:
  "p_state slot_initialized = INITIALIZED
   \<and> isl (fst (prepare env_pm_fails_once 7 \<lparr>pieces = [''pieceA''], codeSteps = None\<rparr> slot_initialized []))
   \<and> snd (prepare env_pm_fails_once 7 \<lparr>pieces = [''pieceA''], codeSteps = None\<rparr> slot_initialized []) =
       (slot_initialized\<lparr>p_activeSandboxCount := 1, p_lastUsedAt := 7\<rparr>,
        [(PackageManagerInit ''/tmp/cache/sandbox/abc'', Rejected buildError)])
   \<and> prepare env_pm_fails_once 9 \<lparr>pieces = [''pieceA''], codeSteps = None\<rparr>
         (slot_initialized\<lparr>p_activeSandboxCount := 1, p_lastUsedAt := 7\<rparr>)
         [(PackageManagerInit ''/tmp/cache/sandbox/abc'', Rejected buildError)] =
       (Inr (), slot_initialized\<lparr>p_activeSandboxCount := 2, p_lastUsedAt := 9, p_state := READY\<rparr>,
        [(PackageManagerInit ''/tmp/cache/sandbox/abc'', Rejected buildError),
         (PackageManagerInit ''/tmp/cache/sandbox/abc'', Fulfilled),
         (PieceManagerInstall ''/tmp/cache/sandbox/abc'' [''pieceA''], Fulfilled),
         (EngineInstall ''/tmp/cache/sandbox/abc'', Fulfilled)])
   \<and> isl (fst (prepare env_piece_fails 7 \<lparr>pieces = [''pieceA''], codeSteps = None\<rparr> slot_initialized []))
   \<and> fst (snd (prepare env_piece_fails 7 \<lparr>pieces = [''pieceA''], codeSteps = None\<rparr> slot_initialized [])) =
       slot_initialized\<lparr>p_activeSandboxCount := 1, p_lastUsedAt := 7\<rparr>
   \<and> isl (fst (prepare env_engine_fails 7 \<lparr>pieces = [''pieceA''], codeSteps = None\<rparr> slot_initialized []))
   \<and> fst (snd (prepare env_engine_fails 7 \<lparr>pieces = [''pieceA''], codeSteps = None\<rparr> slot_initialized [])) =
       slot_initialized\<lparr>p_activeSandboxCount := 1, p_lastUsedAt := 7\<rparr>
   \<and> isl (fst (prepare env_build_fails 7
         \<lparr>pieces = [''pieceA''], codeSteps = Some [artifact_good, artifact_bad]\<rparr> slot_initialized []))
   \<and> fst (snd (prepare env_build_fails 7
         \<lparr>pieces = [''pieceA''], codeSteps = Some [artifact_good, artifact_bad]\<rparr> slot_initialized [])) =
       slot_initialized\<lparr>p_activeSandboxCount := 1, p_lastUsedAt := 7\<rparr>"
proof -
  define params where "params = \<lparr>pieces = [''pieceA''], codeSteps = None\<rparr>"
  define params' where "params' = \<lparr>pieces = [''pieceA''], codeSteps = Some [artifact_good, artifact_bad]\<rparr>"
  define failed where "failed = slot_initialized\<lparr>p_activeSandboxCount := 1, p_lastUsedAt := 7\<rparr>"
  have st: "p_state slot_initialized = INITIALIZED"
    and count: "p_activeSandboxCount slot_initialized = 0"
    by (simp_all add: fixture_defs)
  have paths: "path env_pm_fails_once slot_initialized = ''/tmp/cache/sandbox/abc''"
    "path env_piece_fails slot_initialized = ''/tmp/cache/sandbox/abc''"
    "path env_engine_fails slot_initialized = ''/tmp/cache/sandbox/abc''"
    "path env_build_fails slot_initialized = ''/tmp/cache/sandbox/abc''"
    by (simp_all add: path_def fixture_defs)
  have once: "packageManager_init env_pm_fails_once [] ''/tmp/cache/sandbox/abc'' = Some buildError"
    and again: "installsSucceed env_pm_fails_once ''/tmp/cache/sandbox/abc'' [''pieceA'']
        [(PackageManagerInit ''/tmp/cache/sandbox/abc'', Rejected buildError)]"
    by (simp_all add: installsSucceed_def fixture_defs)
  have piece: "packageManager_init env_piece_fails [] ''/tmp/cache/sandbox/abc'' = None"
    "pieceManager_install env_piece_fails [(PackageManagerInit ''/tmp/cache/sandbox/abc'', Fulfilled)]
       ''/tmp/cache/sandbox/abc'' [''pieceA''] = Some buildError"
    by (simp_all add: fixture_defs)
  have engine: "packageManager_init env_engine_fails [] ''/tmp/cache/sandbox/abc'' = None"
    "pieceManager_install env_engine_fails [(PackageManagerInit ''/tmp/cache/sandbox/abc'', Fulfilled)]
       ''/tmp/cache/sandbox/abc'' [''pieceA''] = None"
    "engineInstaller_install env_engine_fails
       [(PackageManagerInit ''/tmp/cache/sandbox/abc'', Fulfilled),
        (PieceManagerInstall ''/tmp/cache/sandbox/abc'' [''pieceA''], Fulfilled)]
       ''/tmp/cache/sandbox/abc'' = Some buildError"
    by (simp_all add: fixture_defs)
  have build: "installsSucceed env_build_fails ''/tmp/cache/sandbox/abc'' [''pieceA''] []"
    "launch env_build_fails ''/tmp/cache/sandbox/abc'' [artifact_good, artifact_bad]
        (installed ''/tmp/cache/sandbox/abc'' [''pieceA''] []) =
       [(ProcessCodeStep ''good'' ''return 1'' ''/tmp/cache/sandbox/abc'', Task 5 None),
        (ProcessCodeStep ''bad'' ''throw'' ''/tmp/cache/sandbox/abc'', Task 1 (Some buildError))]"
    by (simp_all add: installsSucceed_def Let_def fixture_defs)
  have world_once: "snd (snd (prepare env_pm_fails_once 7 params slot_initialized [])) =
      [(PackageManagerInit ''/tmp/cache/sandbox/abc'', Rejected buildError)]"
    using st by (simp add: prepare_world buildSequence_packageManager_fails paths once params_def)
  from prepare_failure_keeps_borrow [OF st, where env = env_pm_fails_once and params = params
      and w = "[]" and now = 7 and ?now2.0 = 9 and ?params2.0 = params]
  have a: "isl (fst (prepare env_pm_fails_once 7 params slot_initialized []))
      \<and> fst (snd (prepare env_pm_fails_once 7 params slot_initialized [])) = failed
      \<and> prepare env_pm_fails_once 9 params failed
            [(PackageManagerInit ''/tmp/cache/sandbox/abc'', Rejected buildError)] =
          (Inr (), slot_initialized\<lparr>p_activeSandboxCount := 2, p_lastUsedAt := 9, p_state := READY\<rparr>,
           [(PackageManagerInit ''/tmp/cache/sandbox/abc'', Rejected buildError),
            (PackageManagerInit ''/tmp/cache/sandbox/abc'', Fulfilled),
            (PieceManagerInstall ''/tmp/cache/sandbox/abc'' [''pieceA''], Fulfilled),
            (EngineInstall ''/tmp/cache/sandbox/abc'', Fulfilled)])"
    by (auto simp: paths once again world_once [unfolded params_def] count params_def failed_def
        fullSequence_def)
  from prepare_failure_keeps_borrow [OF st, where env = env_piece_fails and params = params
      and w = "[]" and now = 7 and ?now2.0 = 9 and ?params2.0 = params]
  have b: "isl (fst (prepare env_piece_fails 7 params slot_initialized []))
      \<and> fst (snd (prepare env_piece_fails 7 params slot_initialized [])) = failed"
    by (auto simp: paths piece count params_def failed_def)
  from prepare_failure_keeps_borrow [OF st, where env = env_engine_fails and params = params
      and w = "[]" and now = 7 and ?now2.0 = 9 and ?params2.0 = params]
  have c: "isl (fst (prepare env_engine_fails 7 params slot_initialized []))
      \<and> fst (snd (prepare env_engine_fails 7 params slot_initialized [])) = failed"
    by (auto simp: paths engine count params_def failed_def)
  from prepare_failure_keeps_borrow [OF st, where env = env_build_fails and params = params'
      and w = "[]" and now = 7 and ?now2.0 = 9 and ?params2.0 = params]
  have d: "isl (fst (prepare env_build_fails 7 params' slot_initialized []))
      \<and> fst (snd (prepare env_build_fails 7 params' slot_initialized [])) = failed"
    by (auto simp: paths build count params'_def failed_def simp del: launch.simps)
  from a world_once have a': "snd (prepare env_pm_fails_once 7 params slot_initialized []) =
      (failed, [(PackageManagerInit ''/tmp/cache/sandbox/abc'', Rejected buildError)])"
    by (simp add: prod_eq_iff)
  from st a a' b c d show ?thesis
    by (simp add: params_def params'_def failed_def)
qed

subsection \<open>The optional code steps\<close>

lemma buildSequence_no_codeSteps:
  "filter (\<lambda>(c, st). isBuildCall c) (snd (buildSequence env s ps [] w)) =
   filter (\<lambda>(c, st). isBuildCall c) w"
  by (cases rule: buildSequence_cases [where env = env and w = w and s = s and ps = ps])
    (simp_all add: buildSequence_packageManager_fails buildSequence_pieceManager_fails
      buildSequence_engineInstaller_fails buildSequence_installs_ok installed_def
      buildCodeArchives_def)

text \<open>
  C9: a \<^verbatim>\<open>prepare\<close> without \<^verbatim>\<open>codeSteps\<close> does exactly what a \<^verbatim>\<open>prepare\<close> with an
  empty list of code steps does: same result, same slot, same world. The default
  launches no build task, and the call adds no \<^verbatim>\<open>processCodeStep\<close> call to the world.
\<close>

theorem prepare_codeSteps_default:
  "prepare env now \<lparr>pieces = ps, codeSteps = None\<rparr> s w =
     prepare env now \<lparr>pieces = ps, codeSteps = Some []\<rparr> s w
   \<and> launch env (path env s) (case None of None \<Rightarrow> [] | Some given \<Rightarrow> given) w0 = []
   \<and> filter (\<lambda>(c, st). isBuildCall c)
        (snd (snd (prepare env now \<lparr>pieces = ps, codeSteps = None\<rparr> s w))) =
      filter (\<lambda>(c, st). isBuildCall c) w"
proof (intro conjI)
  show "prepare env now \<lparr>pieces = ps, codeSteps = None\<rparr> s w =
     prepare env now \<lparr>pieces = ps, codeSteps = Some []\<rparr> s w"
    by (simp add: prepare_def)
  show "launch env (path env s) (case None of None \<Rightarrow> [] | Some given \<Rightarrow> given) w0 = []"
    by simp
  show "filter (\<lambda>(c, st). isBuildCall c)
        (snd (snd (prepare env now \<lparr>pieces = ps, codeSteps = None\<rparr> s w))) =
      filter (\<lambda>(c, st). isBuildCall c) w"
    by (simp add: prepare_world buildSequence_no_codeSteps)
qed

text \<open>The first borrow of an initialised slot, without code steps.\<close>

theorem prepare_codeSteps_default_witness:
  "prepare env_ok 7 \<lparr>pieces = [''pieceA''], codeSteps = None\<rparr> slot_initialized [] =
     prepare env_ok 7 \<lparr>pieces = [''pieceA''], codeSteps = Some []\<rparr> slot_initialized []
   \<and> snd (snd (prepare env_ok 7 \<lparr>pieces = [''pieceA''], codeSteps = None\<rparr> slot_initialized [])) =
      [(PackageManagerInit ''/tmp/cache/sandbox/abc'', Fulfilled),
       (PieceManagerInstall ''/tmp/cache/sandbox/abc'' [''pieceA''], Fulfilled),
       (EngineInstall ''/tmp/cache/sandbox/abc'', Fulfilled)]"
  using prepare_codeSteps_default [of env_ok 7 "[''pieceA'']" slot_initialized "[]" "[]"]
  by (simp add: model_defs fixture_defs)


subsection \<open>A rejected build among several\<close>

lemma statusAt_Pending: "statusAt d t = Pending \<longleftrightarrow> d < settlesAfter t"
  by (auto simp: statusAt_def split: option.splits)

lemma unawaited_append: "unawaited (w @ w') = unawaited w @ unawaited w'"
  by (simp add: unawaited_def)

lemma unawaited_installed: "unawaited (installed p ps w) = unawaited w"
  by (simp add: unawaited_def installed_def)

lemma unawaited_jobs:
  "unawaited (map (\<lambda>(c, t). (c, statusAt d t)) jobs) =
     map fst (filter (\<lambda>(c, t). d < settlesAfter t) jobs)"
  by (induction jobs) (auto simp: unawaited_def statusAt_Pending)

text \<open>
  C1, as amended: on an \<open>INITIALIZED\<close> slot whose three installs succeed and among
  whose code steps at least one build rejects, \<^verbatim>\<open>prepare\<close> launches a build task for
  every code step, in order, and fails with the error of the task that rejects first,
  at the moment \<open>d\<close> of that rejection. The tasks that settle by then have settled; the
  tasks that need longer are not waited for: they are exactly the calls the failed
  \<^verbatim>\<open>prepare\<close> leaves pending.
\<close>

theorem prepare_reports_first_rejection:
  fixes env :: env and s :: CachedSandbox and now :: timestamp and params :: PrepareParams
    and w :: world
  defines "cs \<equiv> (case codeSteps params of None \<Rightarrow> [] | Some given \<Rightarrow> given)"
    and "s1 \<equiv> s\<lparr>p_activeSandboxCount := p_activeSandboxCount s + 1, p_lastUsedAt := now\<rparr>"
    and "jobs \<equiv> launch env (path env s)
                  (case codeSteps params of None \<Rightarrow> [] | Some given \<Rightarrow> given)
                  (installed (path env s) (pieces params) w)"
  assumes initialized: "p_state s = INITIALIZED"
    and installs: "installsSucceed env (path env s) (pieces params) w"
    and rejects: "\<exists>t \<in> set (map snd jobs). outcome t \<noteq> None"
  shows "\<exists>d e. promise_all (map snd jobs) = Some (d, e)
           \<and> prepare env now params s w =
               (Inl (enrichErrorContext env e ''[CachedSandbox#prepare]''
                      (contextOf env (pieces params) cs s1)),
                s1,
                installed (path env s) (pieces params) w
                  @ map (\<lambda>(c, t). (c, statusAt d t)) jobs)
           \<and> map fst jobs = map (\<lambda>a. ProcessCodeStep (name a) (sourceCode a) (path env s)) cs
           \<and> (\<exists>t \<in> set (map snd jobs). outcome t = Some e \<and> settlesAfter t = d)
           \<and> (\<forall>t \<in> set (map snd jobs). outcome t \<noteq> None \<longrightarrow> d \<le> settlesAfter t)
           \<and> unawaited (snd (snd (prepare env now params s w))) =
               unawaited w @ map fst (filter (\<lambda>(c, t). d < settlesAfter t) jobs)"
proof -
  from rejects have "promise_all (map snd jobs) \<noteq> None"
    by (auto simp: promise_all_None)
  then obtain d e where first: "promise_all (map snd jobs) = Some (d, e)"
    by (cases "promise_all (map snd jobs)") auto
  let ?w' = "installed (path env s) (pieces params) w @ map (\<lambda>(c, t). (c, statusAt d t)) jobs"
  from installs first have "buildSequence env s (pieces params) cs w = (Inl e, ?w')"
    by (simp add: buildSequence_installs_ok buildCodeArchives_rejected jobs_def cs_def)
  with initialized have result: "prepare env now params s w =
      (Inl (enrichErrorContext env e ''[CachedSandbox#prepare]''
             (contextOf env (pieces params) cs s1)), s1, ?w')"
    by (simp add: prepare_INITIALIZED_fails cs_def s1_def)
  have launched: "map fst jobs = map (\<lambda>a. ProcessCodeStep (name a) (sourceCode a) (path env s)) cs"
    by (simp add: jobs_def cs_def launch_calls)
  have pending: "unawaited (snd (snd (prepare env now params s w))) =
      unawaited w @ map fst (filter (\<lambda>(c, t). d < settlesAfter t) jobs)"
    by (simp add: result unawaited_append unawaited_installed unawaited_jobs)
  from promise_all_Some [OF first] first result launched pending show ?thesis
    by blast
qed

text \<open>
  Two code steps: \<open>good\<close> builds in five ticks, \<open>bad\<close> fails after one. The call fails
  with the error of \<open>bad\<close> and leaves the build of \<open>good\<close> pending.
\<close>

theorem prepare_reports_first_rejection_witness:
  "p_state slot_initialized = INITIALIZED
   \<and> installsSucceed env_build_fails ''/tmp/cache/sandbox/abc'' [] []
   \<and> launch env_build_fails ''/tmp/cache/sandbox/abc'' [artifact_good, artifact_bad]
        (installed ''/tmp/cache/sandbox/abc'' [] []) =
       [(ProcessCodeStep ''good'' ''return 1'' ''/tmp/cache/sandbox/abc'', Task 5 None),
        (ProcessCodeStep ''bad'' ''throw'' ''/tmp/cache/sandbox/abc'', Task 1 (Some buildError))]
   \<and> unawaited (snd (snd (prepare env_build_fails 7
         \<lparr>pieces = [], codeSteps = Some [artifact_good, artifact_bad]\<rparr> slot_initialized []))) =
       [ProcessCodeStep ''good'' ''return 1'' ''/tmp/cache/sandbox/abc'']
   \<and> fst (prepare env_build_fails 7
         \<lparr>pieces = [], codeSteps = Some [artifact_good, artifact_bad]\<rparr> slot_initialized []) =
       Inl (enrichErrorContext_spec buildError ''[CachedSandbox#prepare]''
             (contextOf env_build_fails [] [artifact_good, artifact_bad]
               (slot_initialized\<lparr>p_activeSandboxCount := 1, p_lastUsedAt := 7\<rparr>)))"
proof -
  define params where "params = \<lparr>pieces = [], codeSteps = Some [artifact_good, artifact_bad]\<rparr>"
  have st: "p_state slot_initialized = INITIALIZED"
    by (simp add: slot_initialized_def)
  have p: "path env_build_fails slot_initialized = ''/tmp/cache/sandbox/abc''"
    by (simp add: path_def fixture_defs)
  have installs: "installsSucceed env_build_fails (path env_build_fails slot_initialized) (pieces params) []"
    by (simp add: installsSucceed_def fixture_defs)
  have jobs0: "launch env_build_fails ''/tmp/cache/sandbox/abc'' [artifact_good, artifact_bad]
        (installed ''/tmp/cache/sandbox/abc'' [] []) =
       [(ProcessCodeStep ''good'' ''return 1'' ''/tmp/cache/sandbox/abc'', Task 5 None),
        (ProcessCodeStep ''bad'' ''throw'' ''/tmp/cache/sandbox/abc'', Task 1 (Some buildError))]"
    by (simp add: Let_def env_build_fails_def env_ok_def artifact_good_def artifact_bad_def)
  have jobs: "launch env_build_fails (path env_build_fails slot_initialized)
        (case codeSteps params of None \<Rightarrow> [] | Some given \<Rightarrow> given)
        (installed (path env_build_fails slot_initialized) (pieces params) []) =
       [(ProcessCodeStep ''good'' ''return 1'' ''/tmp/cache/sandbox/abc'', Task 5 None),
        (ProcessCodeStep ''bad'' ''throw'' ''/tmp/cache/sandbox/abc'', Task 1 (Some buildError))]"
    using jobs0 by (simp add: params_def p)
  have rejects: "\<exists>t \<in> set (map snd (launch env_build_fails (path env_build_fails slot_initialized)
        (case codeSteps params of None \<Rightarrow> [] | Some given \<Rightarrow> given)
        (installed (path env_build_fails slot_initialized) (pieces params) []))). outcome t \<noteq> None"
    by (simp add: jobs)
  have count: "p_activeSandboxCount slot_initialized = 0"
    and enr: "enrichErrorContext env_build_fails = enrichErrorContext_spec"
    by (simp_all add: fixture_defs)
  from prepare_reports_first_rejection [OF st installs rejects, of 7]
  obtain d e where de: "promise_all (map snd (launch env_build_fails (path env_build_fails slot_initialized)
        (case codeSteps params of None \<Rightarrow> [] | Some given \<Rightarrow> given)
        (installed (path env_build_fails slot_initialized) (pieces params) []))) = Some (d, e)"
    and res: "prepare env_build_fails 7 params slot_initialized [] =
               (Inl (enrichErrorContext env_build_fails e ''[CachedSandbox#prepare]''
                      (contextOf env_build_fails (pieces params)
                        (case codeSteps params of None \<Rightarrow> [] | Some given \<Rightarrow> given)
                        (slot_initialized\<lparr>p_activeSandboxCount := p_activeSandboxCount slot_initialized + 1, p_lastUsedAt := 7\<rparr>))),
                slot_initialized\<lparr>p_activeSandboxCount := p_activeSandboxCount slot_initialized + 1, p_lastUsedAt := 7\<rparr>,
                installed (path env_build_fails slot_initialized) (pieces params) []
                  @ map (\<lambda>(c, t). (c, statusAt d t)) (launch env_build_fails (path env_build_fails slot_initialized)
        (case codeSteps params of None \<Rightarrow> [] | Some given \<Rightarrow> given)
        (installed (path env_build_fails slot_initialized) (pieces params) [])))"
    and un: "unawaited (snd (snd (prepare env_build_fails 7 params slot_initialized []))) =
               unawaited [] @ map fst (filter (\<lambda>(c, t). d < settlesAfter t) (launch env_build_fails (path env_build_fails slot_initialized)
        (case codeSteps params of None \<Rightarrow> [] | Some given \<Rightarrow> given)
        (installed (path env_build_fails slot_initialized) (pieces params) [])))"
    by blast
  from de have d: "d = 1" and e: "e = buildError"
    by (simp_all add: jobs)
  from st installs jobs res un show ?thesis
    by (simp add: d e p params_def count enr unawaited_def)
qed

text \<open>
  Not every launched build is awaited before the failure is reported: with the code
  steps \<open>bad\<close> (rejecting after one tick) and \<open>good\<close> (fulfilling after five),
  \<^verbatim>\<open>prepare\<close> returns the error while the promise of \<open>good\<close> is still pending.
\<close>

theorem failed_build_leaves_sibling_running:
  "prepare env_build_fails 7 \<lparr>pieces = [], codeSteps = Some [artifact_bad, artifact_good]\<rparr>
     slot_initialized [] =
     (Inl (enrichErrorContext_spec buildError ''[CachedSandbox#prepare]''
            (contextOf env_build_fails [] [artifact_bad, artifact_good]
              (slot_initialized\<lparr>p_activeSandboxCount := 1, p_lastUsedAt := 7\<rparr>))),
      slot_initialized\<lparr>p_activeSandboxCount := 1, p_lastUsedAt := 7\<rparr>,
      [(PackageManagerInit ''/tmp/cache/sandbox/abc'', Fulfilled),
       (PieceManagerInstall ''/tmp/cache/sandbox/abc'' [], Fulfilled),
       (EngineInstall ''/tmp/cache/sandbox/abc'', Fulfilled),
       (ProcessCodeStep ''bad'' ''throw'' ''/tmp/cache/sandbox/abc'', Rejected buildError),
       (ProcessCodeStep ''good'' ''return 1'' ''/tmp/cache/sandbox/abc'', Pending)])
   \<and> unawaited
       [(PackageManagerInit ''/tmp/cache/sandbox/abc'', Fulfilled),
        (PieceManagerInstall ''/tmp/cache/sandbox/abc'' [], Fulfilled),
        (EngineInstall ''/tmp/cache/sandbox/abc'', Fulfilled),
        (ProcessCodeStep ''bad'' ''throw'' ''/tmp/cache/sandbox/abc'', Rejected buildError),
        (ProcessCodeStep ''good'' ''return 1'' ''/tmp/cache/sandbox/abc'', Pending)] =
       [ProcessCodeStep ''good'' ''return 1'' ''/tmp/cache/sandbox/abc'']"
  by (simp add: model_defs fixture_defs)


subsection \<open>What becomes of a collaborator's error\<close>

lemma error_eqI:
  "kind err = kind e \<Longrightarrow> message err = message e \<Longrightarrow>
   errContext err = errContext e @ [(k, v)] \<Longrightarrow> err = enrichErrorContext_spec e k v"
  by (cases err, cases e) (simp add: enrichErrorContext_spec_def)

text \<open>
  C5, as amended, with the enrichment helper as the specification describes it. An
  error of \<^verbatim>\<open>rm\<close> or \<^verbatim>\<open>mkdir\<close> is the result of \<^verbatim>\<open>init\<close> as it is, without any
  enrichment. On an \<open>INITIALIZED\<close> slot, an error of the dependency-context init, of the
  package install or of the engine install is what \<^verbatim>\<open>prepare\<close> returns, with its kind
  and message unchanged and with the diagnostic context of the slot (call arguments,
  state, active count, key, last-used time, in-use flag, path) attached under the key
  \<^verbatim>\<open>[CachedSandbox#prepare]\<close>. When the installs succeed and a build task rejects,
  \<^verbatim>\<open>prepare\<close> returns in the same way the error of one task that rejects earliest,
  and only that one: the world it leaves holds every build's promise as it is at that
  moment, so a build that would reject later is still pending and its error is
  dropped. The context attached is the one of a call with no other caller queued on
  the lock: the catch block runs after the lock is released, and reads the slot then.
\<close>

theorem collaborator_errors_propagate:
  fixes env :: env and s :: CachedSandbox and now :: timestamp and params :: PrepareParams
    and w :: world
  defines "p \<equiv> path env s"
    and "ps \<equiv> pieces params"
    and "cs \<equiv> (case codeSteps params of None \<Rightarrow> [] | Some given \<Rightarrow> given)"
    and "jobs \<equiv> launch env (path env s)
                  (case codeSteps params of None \<Rightarrow> [] | Some given \<Rightarrow> given)
                  (installed (path env s) (pieces params) w)"
    and "reported \<equiv> \<lambda>e. \<exists>err. fst (prepare env now params s w) = Inl err
           \<and> kind err = kind e \<and> message err = message e
           \<and> errContext err = errContext e @ [(''[CachedSandbox#prepare]'',
                 contextOf env (pieces params)
                   (case codeSteps params of None \<Rightarrow> [] | Some given \<Rightarrow> given)
                   (s\<lparr>p_activeSandboxCount := p_activeSandboxCount s + 1, p_lastUsedAt := now\<rparr>))]"
  assumes enrich: "enrichErrorContext env = enrichErrorContext_spec"
  shows "(p_state s = CREATED \<and> rm env w p = Some e \<longrightarrow> fst (init env s w) = Inl e)
       \<and> (p_state s = CREATED \<and> rm env w p = None
            \<and> mkdir env (w @ [(Rm p, Fulfilled)]) p = Some e \<longrightarrow>
            fst (init env s w) = Inl e)
       \<and> (p_state s = INITIALIZED \<and> packageManager_init env w p = Some e \<longrightarrow> reported e)
       \<and> (p_state s = INITIALIZED \<and> packageManager_init env w p = None
            \<and> pieceManager_install env (w @ [(PackageManagerInit p, Fulfilled)]) p ps = Some e \<longrightarrow>
            reported e)
       \<and> (p_state s = INITIALIZED \<and> packageManager_init env w p = None
            \<and> pieceManager_install env (w @ [(PackageManagerInit p, Fulfilled)]) p ps = None
            \<and> engineInstaller_install env
                 (w @ [(PackageManagerInit p, Fulfilled), (PieceManagerInstall p ps, Fulfilled)]) p
                 = Some e \<longrightarrow>
            reported e)
       \<and> (p_state s = INITIALIZED \<and> installsSucceed env p ps w
            \<and> (\<exists>t \<in> set (map snd jobs). outcome t \<noteq> None) \<longrightarrow>
            (\<exists>t \<in> set (map snd jobs).
                (\<forall>t' \<in> set (map snd jobs). outcome t' \<noteq> None \<longrightarrow> settlesAfter t \<le> settlesAfter t')
                \<and> (\<exists>e'. outcome t = Some e' \<and> reported e')
                \<and> snd (snd (prepare env now params s w)) =
                      installed p ps w @ map (\<lambda>(c, t'). (c, statusAt (settlesAfter t) t')) jobs
                \<and> (\<forall>(c, t') \<in> set jobs. settlesAfter t < settlesAfter t' \<longrightarrow>
                      (c, Pending) \<in> set (snd (snd (prepare env now params s w))))))"
proof -
  have via: "reported e'" "snd (snd (prepare env now params s w)) = w1"
    if st: "p_state s = INITIALIZED" and b: "buildSequence env s ps cs w = (Inl e', w1)" for e' w1
  proof -
    from st b have result: "prepare env now params s w =
        (Inl (enrichErrorContext_spec e' ''[CachedSandbox#prepare]''
               (contextOf env ps cs
                  (s\<lparr>p_activeSandboxCount := p_activeSandboxCount s + 1, p_lastUsedAt := now\<rparr>))),
         s\<lparr>p_activeSandboxCount := p_activeSandboxCount s + 1, p_lastUsedAt := now\<rparr>, w1)"
      using prepare_INITIALIZED_fails [of s env params w e' w1 now]
      by (simp add: ps_def cs_def enrich)
    then show "reported e'"
      by (simp add: reported_def ps_def cs_def enrichErrorContext_spec_def)
    from result show "snd (snd (prepare env now params s w)) = w1"
      by simp
  qed
  show ?thesis
  proof (intro conjI impI)
    assume "p_state s = CREATED \<and> rm env w p = Some e"
    then show "fst (init env s w) = Inl e"
      by (simp add: p_def init_CREATED_rm_fails)
  next
    assume "p_state s = CREATED \<and> rm env w p = None
              \<and> mkdir env (w @ [(Rm p, Fulfilled)]) p = Some e"
    then show "fst (init env s w) = Inl e"
      by (simp add: p_def init_CREATED_mkdir_fails)
  next
    assume a: "p_state s = INITIALIZED \<and> packageManager_init env w p = Some e"
    then have "buildSequence env s ps cs w = (Inl e, w @ [(PackageManagerInit (path env s), Rejected e)])"
      by (simp add: p_def buildSequence_packageManager_fails)
    with a show "reported e" by (blast intro: via(1))
  next
    assume a: "p_state s = INITIALIZED \<and> packageManager_init env w p = None
              \<and> pieceManager_install env (w @ [(PackageManagerInit p, Fulfilled)]) p ps = Some e"
    then have "buildSequence env s ps cs w =
        (Inl e, w @ [(PackageManagerInit (path env s), Fulfilled),
                     (PieceManagerInstall (path env s) ps, Rejected e)])"
      by (simp add: p_def buildSequence_pieceManager_fails)
    with a show "reported e" by (blast intro: via(1))
  next
    assume a: "p_state s = INITIALIZED \<and> packageManager_init env w p = None
              \<and> pieceManager_install env (w @ [(PackageManagerInit p, Fulfilled)]) p ps = None
              \<and> engineInstaller_install env
                   (w @ [(PackageManagerInit p, Fulfilled), (PieceManagerInstall p ps, Fulfilled)]) p
                   = Some e"
    then have "buildSequence env s ps cs w =
        (Inl e, w @ [(PackageManagerInit (path env s), Fulfilled),
                     (PieceManagerInstall (path env s) ps, Fulfilled),
                     (EngineInstall (path env s), Rejected e)])"
      by (simp add: p_def buildSequence_engineInstaller_fails)
    with a show "reported e" by (blast intro: via(1))
  next
    assume a: "p_state s = INITIALIZED \<and> installsSucceed env p ps w
              \<and> (\<exists>t \<in> set (map snd jobs). outcome t \<noteq> None)"
    then have st: "p_state s = INITIALIZED"
      and installs: "installsSucceed env (path env s) ps w"
      and rejects: "\<exists>t \<in> set (map snd (launch env (path env s) cs (installed (path env s) ps w))).
                      outcome t \<noteq> None"
      by (simp_all add: p_def jobs_def cs_def ps_def)
    from buildSequence_build_rejects [OF installs rejects]
    obtain t e' where t: "t \<in> set (map snd jobs)" "outcome t = Some e'"
      and least: "\<forall>t' \<in> set (map snd jobs). outcome t' \<noteq> None \<longrightarrow> settlesAfter t \<le> settlesAfter t'"
      and b: "buildSequence env s ps cs w =
         (Inl e', installed p ps w @ map (\<lambda>(c, t'). (c, statusAt (settlesAfter t) t')) jobs)"
      unfolding jobs_def cs_def ps_def p_def by blast
    from via [OF st b] have rep: "reported e'"
      and world: "snd (snd (prepare env now params s w)) =
          installed p ps w @ map (\<lambda>(c, t'). (c, statusAt (settlesAfter t) t')) jobs"
      by simp_all
    have pending: "\<forall>(c, t') \<in> set jobs. settlesAfter t < settlesAfter t' \<longrightarrow>
        (c, Pending) \<in> set (snd (snd (prepare env now params s w)))"
    proof (intro ballI, clarify)
      fix c t'
      assume "(c, t') \<in> set jobs" "settlesAfter t < settlesAfter t'"
      then have "(c, statusAt (settlesAfter t) t') \<in> set (map (\<lambda>(c, t'). (c, statusAt (settlesAfter t) t')) jobs)"
        and "statusAt (settlesAfter t) t' = Pending"
        by (force, simp add: statusAt_Pending)
      then show "(c, Pending) \<in> set (snd (snd (prepare env now params s w)))"
        by (simp add: world)
    qed
    from t least rep world pending
    show "\<exists>t \<in> set (map snd jobs).
            (\<forall>t' \<in> set (map snd jobs). outcome t' \<noteq> None \<longrightarrow> settlesAfter t \<le> settlesAfter t')
            \<and> (\<exists>e'. outcome t = Some e' \<and> reported e')
            \<and> snd (snd (prepare env now params s w)) =
                  installed p ps w @ map (\<lambda>(c, t'). (c, statusAt (settlesAfter t) t')) jobs
            \<and> (\<forall>(c, t') \<in> set jobs. settlesAfter t < settlesAfter t' \<longrightarrow>
                  (c, Pending) \<in> set (snd (snd (prepare env now params s w))))"
      by blast
  qed
qed

text \<open>
  One failing collaborator at a time: the delete, the create, the dependency context,
  the package install, the engine install; then two code steps whose builds both
  reject, \<open>late\<close> after three ticks and \<open>bad\<close> after one: \<^verbatim>\<open>prepare\<close> returns the
  error of \<open>bad\<close>, and the build of \<open>late\<close> is still pending.
\<close>

theorem collaborator_errors_propagate_witness:
  "fst (init env_rm_fails slot_abc []) = Inl storageError
   \<and> fst (init env_mkdir_fails slot_abc []) = Inl storageError
   \<and> fst (prepare env_pm_fails 7 \<lparr>pieces = [], codeSteps = None\<rparr> slot_initialized []) =
       Inl \<lparr>kind = ''BuildError'', message = ''build failed'',
            errContext = [(''[CachedSandbox#prepare]'',
              \<lparr>ctx_pieces = [], ctx_codeSteps = [], ctx_state = INITIALIZED,
               ctx_activeSandboxes = 1, ctx_key = ''abc'', ctx_lastUsedAt = 7,
               ctx_isInUse = True, ctx_path = ''/tmp/cache/sandbox/abc''\<rparr>)]\<rparr>
   \<and> fst (prepare env_piece_fails 7 \<lparr>pieces = [], codeSteps = None\<rparr> slot_initialized []) =
       Inl (enrichErrorContext_spec buildError ''[CachedSandbox#prepare]''
             (contextOf env_piece_fails [] []
               (slot_initialized\<lparr>p_activeSandboxCount := 1, p_lastUsedAt := 7\<rparr>)))
   \<and> fst (prepare env_engine_fails 7 \<lparr>pieces = [], codeSteps = None\<rparr> slot_initialized []) =
       Inl (enrichErrorContext_spec buildError ''[CachedSandbox#prepare]''
             (contextOf env_engine_fails [] []
               (slot_initialized\<lparr>p_activeSandboxCount := 1, p_lastUsedAt := 7\<rparr>)))
   \<and> fst (prepare env_builds_fail 7 \<lparr>pieces = [], codeSteps = Some [artifact_late, artifact_bad]\<rparr>
          slot_initialized []) =
       Inl (enrichErrorContext_spec buildError ''[CachedSandbox#prepare]''
             (contextOf env_builds_fail [] [artifact_late, artifact_bad]
               (slot_initialized\<lparr>p_activeSandboxCount := 1, p_lastUsedAt := 7\<rparr>)))
   \<and> snd (snd (prepare env_builds_fail 7 \<lparr>pieces = [], codeSteps = Some [artifact_late, artifact_bad]\<rparr>
          slot_initialized [])) =
       [(PackageManagerInit ''/tmp/cache/sandbox/abc'', Fulfilled),
        (PieceManagerInstall ''/tmp/cache/sandbox/abc'' [], Fulfilled),
        (EngineInstall ''/tmp/cache/sandbox/abc'', Fulfilled),
        (ProcessCodeStep ''late'' ''throw later'' ''/tmp/cache/sandbox/abc'', Pending),
        (ProcessCodeStep ''bad'' ''throw'' ''/tmp/cache/sandbox/abc'', Rejected buildError)]"
proof -
  define params where "params = \<lparr>pieces = [], codeSteps = None\<rparr>"
  define params' where "params' = \<lparr>pieces = [], codeSteps = Some [artifact_late, artifact_bad]\<rparr>"
  define failed where "failed = slot_initialized\<lparr>p_activeSandboxCount := 1, p_lastUsedAt := 7\<rparr>"
  have enr: "enrichErrorContext env_rm_fails = enrichErrorContext_spec"
    "enrichErrorContext env_mkdir_fails = enrichErrorContext_spec"
    "enrichErrorContext env_pm_fails = enrichErrorContext_spec"
    "enrichErrorContext env_piece_fails = enrichErrorContext_spec"
    "enrichErrorContext env_engine_fails = enrichErrorContext_spec"
    "enrichErrorContext env_builds_fail = enrichErrorContext_spec"
    by (simp_all add: fixture_defs)
  have created: "p_state slot_abc = CREATED"
    and st: "p_state slot_initialized = INITIALIZED"
    and count: "p_activeSandboxCount slot_initialized = 0"
    by (simp_all add: fixture_defs)
  have paths: "path env_rm_fails slot_abc = ''/tmp/cache/sandbox/abc''"
    "path env_mkdir_fails slot_abc = ''/tmp/cache/sandbox/abc''"
    "path env_pm_fails slot_initialized = ''/tmp/cache/sandbox/abc''"
    "path env_piece_fails slot_initialized = ''/tmp/cache/sandbox/abc''"
    "path env_engine_fails slot_initialized = ''/tmp/cache/sandbox/abc''"
    "path env_builds_fail slot_initialized = ''/tmp/cache/sandbox/abc''"
    by (simp_all add: path_def fixture_defs)
  have rm_fails: "rm env_rm_fails [] ''/tmp/cache/sandbox/abc'' = Some storageError"
    by (simp add: fixture_defs)
  have mkdir_fails: "rm env_mkdir_fails [] ''/tmp/cache/sandbox/abc'' = None"
    "mkdir env_mkdir_fails [(Rm ''/tmp/cache/sandbox/abc'', Fulfilled)]
       ''/tmp/cache/sandbox/abc'' = Some storageError"
    by (simp_all add: fixture_defs)
  have pm_fails: "packageManager_init env_pm_fails [] ''/tmp/cache/sandbox/abc'' = Some buildError"
    by (simp add: fixture_defs)
  have piece_fails: "packageManager_init env_piece_fails [] ''/tmp/cache/sandbox/abc'' = None"
    "pieceManager_install env_piece_fails [(PackageManagerInit ''/tmp/cache/sandbox/abc'', Fulfilled)]
       ''/tmp/cache/sandbox/abc'' [] = Some buildError"
    by (simp_all add: fixture_defs)
  have engine_fails: "packageManager_init env_engine_fails [] ''/tmp/cache/sandbox/abc'' = None"
    "pieceManager_install env_engine_fails [(PackageManagerInit ''/tmp/cache/sandbox/abc'', Fulfilled)]
       ''/tmp/cache/sandbox/abc'' [] = None"
    "engineInstaller_install env_engine_fails
       [(PackageManagerInit ''/tmp/cache/sandbox/abc'', Fulfilled),
        (PieceManagerInstall ''/tmp/cache/sandbox/abc'' [], Fulfilled)]
       ''/tmp/cache/sandbox/abc'' = Some buildError"
    by (simp_all add: fixture_defs)
  have builds: "installsSucceed env_builds_fail ''/tmp/cache/sandbox/abc'' [] []"
    "launch env_builds_fail ''/tmp/cache/sandbox/abc'' [artifact_late, artifact_bad]
        (installed ''/tmp/cache/sandbox/abc'' [] []) =
       [(ProcessCodeStep ''late'' ''throw later'' ''/tmp/cache/sandbox/abc'', Task 3 (Some lateError)),
        (ProcessCodeStep ''bad'' ''throw'' ''/tmp/cache/sandbox/abc'', Task 1 (Some buildError))]"
    by (simp_all add: installsSucceed_def Let_def fixture_defs)
  from collaborator_errors_propagate [OF enr(1), where s = slot_abc and w = "[]" and e = storageError]
    created rm_fails
  have c1: "fst (init env_rm_fails slot_abc []) = Inl storageError"
    by (simp add: paths)
  from collaborator_errors_propagate [OF enr(2), where s = slot_abc and w = "[]" and e = storageError]
    created mkdir_fails
  have c2: "fst (init env_mkdir_fails slot_abc []) = Inl storageError"
    by (simp add: paths)
  from collaborator_errors_propagate [OF enr(3), where s = slot_initialized and w = "[]"
      and e = buildError and params = params and now = 7] st pm_fails
  have c3: "fst (prepare env_pm_fails 7 params slot_initialized []) =
      Inl (enrichErrorContext_spec buildError ''[CachedSandbox#prepare]''
            (contextOf env_pm_fails [] [] failed))"
    by (auto simp: paths count params_def failed_def intro: error_eqI)
  from collaborator_errors_propagate [OF enr(4), where s = slot_initialized and w = "[]"
      and e = buildError and params = params and now = 7] st piece_fails
  have c4: "fst (prepare env_piece_fails 7 params slot_initialized []) =
      Inl (enrichErrorContext_spec buildError ''[CachedSandbox#prepare]''
            (contextOf env_piece_fails [] [] failed))"
    by (auto simp: paths count params_def failed_def intro: error_eqI)
  from collaborator_errors_propagate [OF enr(5), where s = slot_initialized and w = "[]"
      and e = buildError and params = params and now = 7] st engine_fails
  have c5: "fst (prepare env_engine_fails 7 params slot_initialized []) =
      Inl (enrichErrorContext_spec buildError ''[CachedSandbox#prepare]''
            (contextOf env_engine_fails [] [] failed))"
    by (auto simp: paths count params_def failed_def intro: error_eqI)
  from collaborator_errors_propagate [OF enr(6), where s = slot_initialized and w = "[]"
      and e = buildError and params = params' and now = 7] st builds
  have c6: "fst (prepare env_builds_fail 7 params' slot_initialized []) =
      Inl (enrichErrorContext_spec buildError ''[CachedSandbox#prepare]''
            (contextOf env_builds_fail [] [artifact_late, artifact_bad] failed))
    \<and> snd (snd (prepare env_builds_fail 7 params' slot_initialized [])) =
       [(PackageManagerInit ''/tmp/cache/sandbox/abc'', Fulfilled),
        (PieceManagerInstall ''/tmp/cache/sandbox/abc'' [], Fulfilled),
        (EngineInstall ''/tmp/cache/sandbox/abc'', Fulfilled),
        (ProcessCodeStep ''late'' ''throw later'' ''/tmp/cache/sandbox/abc'', Pending),
        (ProcessCodeStep ''bad'' ''throw'' ''/tmp/cache/sandbox/abc'', Rejected buildError)]"
    by (auto simp: paths count params'_def failed_def installed_def statusAt_def
        simp del: launch.simps intro: error_eqI)
  have c3': "fst (prepare env_pm_fails 7 params slot_initialized []) =
       Inl \<lparr>kind = ''BuildError'', message = ''build failed'',
            errContext = [(''[CachedSandbox#prepare]'',
              \<lparr>ctx_pieces = [], ctx_codeSteps = [], ctx_state = INITIALIZED,
               ctx_activeSandboxes = 1, ctx_key = ''abc'', ctx_lastUsedAt = 7,
               ctx_isInUse = True, ctx_path = ''/tmp/cache/sandbox/abc''\<rparr>)]\<rparr>"
    unfolding c3
    by (simp add: failed_def contextOf_def path_def lastUsedAt_def isInUse_def fixture_defs)
  from c1 c2 c3' c4 c5 c6 show ?thesis
    by (simp add: params_def params'_def failed_def)
qed

text \<open>
  Not every collaborator error is enriched, and not every one surfaces. When the
  delete is refused, \<^verbatim>\<open>init\<close> returns the storage error itself, which carries no
  context, although the enrichment helper would have changed it. When the builds of
  \<open>late\<close> and \<open>bad\<close> both reject, \<^verbatim>\<open>prepare\<close> returns the error of \<open>bad\<close> alone: the
  build of \<open>late\<close>, which rejects with another error two ticks later, is still pending
  and its error reaches nobody.
\<close>

theorem init_error_is_not_enriched:
  "init env_rm_fails slot_abc [] =
     (Inl storageError, slot_abc, [(Rm ''/tmp/cache/sandbox/abc'', Rejected storageError)])
   \<and> errContext storageError = []
   \<and> enrichErrorContext env_rm_fails storageError ''[CachedSandbox#prepare]''
         (contextOf env_rm_fails [] [] slot_abc) \<noteq> storageError
   \<and> codeBuilder_processCodeStep env_builds_fail
         [(PackageManagerInit ''/tmp/cache/sandbox/abc'', Fulfilled),
          (PieceManagerInstall ''/tmp/cache/sandbox/abc'' [], Fulfilled),
          (EngineInstall ''/tmp/cache/sandbox/abc'', Fulfilled)]
         ''late'' ''throw later'' ''/tmp/cache/sandbox/abc'' = Task 3 (Some lateError)
   \<and> lateError \<noteq> buildError
   \<and> prepare env_builds_fail 7 \<lparr>pieces = [], codeSteps = Some [artifact_late, artifact_bad]\<rparr>
         slot_initialized [] =
       (Inl (enrichErrorContext_spec buildError ''[CachedSandbox#prepare]''
              (contextOf env_builds_fail [] [artifact_late, artifact_bad]
                (slot_initialized\<lparr>p_activeSandboxCount := 1, p_lastUsedAt := 7\<rparr>))),
        slot_initialized\<lparr>p_activeSandboxCount := 1, p_lastUsedAt := 7\<rparr>,
        [(PackageManagerInit ''/tmp/cache/sandbox/abc'', Fulfilled),
         (PieceManagerInstall ''/tmp/cache/sandbox/abc'' [], Fulfilled),
         (EngineInstall ''/tmp/cache/sandbox/abc'', Fulfilled),
         (ProcessCodeStep ''late'' ''throw later'' ''/tmp/cache/sandbox/abc'', Pending),
         (ProcessCodeStep ''bad'' ''throw'' ''/tmp/cache/sandbox/abc'', Rejected buildError)])"
  by (simp add: model_defs fixture_defs)

end
